theory Spec2Isabelle
  imports Complex_Main
begin

section \<open>JavaScript values and plain objects\<close>

text \<open>
  The pipeline lives in \<^verbatim>\<open>docs/js/wave-hero.js\<close>.  Its configuration objects are plain
  JavaScript objects; the model keeps the own enumerable properties of an object as a
  finite map from property names to values, so that object spread
  \<^verbatim>\<open>{ ...a, ...b }\<close> is map override \<open>a ++ b\<close>.  Numbers are modelled as reals
  (with \<open>NaN\<close> apart) and their arithmetic is that of the reals: the rounding of each
  operation to binary64 is not modelled.  The rounding of a store into a
  \<^verbatim>\<open>Float32Array\<close> to binary32 is.
\<close>

datatype jsval = Undefined | Null | Boolean bool | NaN | Num real | Str string

type_synonym jsobj = "string \<rightharpoonup> jsval"

text \<open>JavaScript's \<^verbatim>\<open>ToBoolean\<close>, used by \<^verbatim>\<open>if (v)\<close> and \<^verbatim>\<open>a || b\<close>.\<close>

fun truthy :: "jsval \<Rightarrow> bool" where
  "truthy Undefined = False"
| "truthy Null = False"
| "truthy (Boolean b) = b"
| "truthy NaN = False"
| "truthy (Num r) = (r \<noteq> 0)"
| "truthy (Str s) = (s \<noteq> [])"

section \<open>Presets\<close>

definition waves :: jsobj where
  "waves = map_of
     [(''separation'', Num 80), (''amountX'', Num 60), (''amountY'', Num 40),
      (''color'', Num 0x8b5cf6), (''waveHeight'', Num 30), (''waveSpeed'', Num 0.05),
      (''cameraZ'', Num 1200), (''cameraY'', Num 400), (''particleSize'', Num 200),
      (''opacity'', Num 0.4)]"

definition particles :: jsobj where
  "particles = map_of
     [(''separation'', Num 100), (''amountX'', Num 50), (''amountY'', Num 50),
      (''color'', Num 0x06b6d4), (''waveHeight'', Num 50), (''waveSpeed'', Num 0.03),
      (''cameraZ'', Num 1500), (''cameraY'', Num 500), (''particleSize'', Num 150),
      (''opacity'', Num 0.3)]"

definition grid :: jsobj where
  "grid = map_of
     [(''separation'', Num 60), (''amountX'', Num 80), (''amountY'', Num 50),
      (''color'', Num 0xd4a543), (''waveHeight'', Num 20), (''waveSpeed'', Num 0.08),
      (''cameraZ'', Num 1000), (''cameraY'', Num 300), (''particleSize'', Num 180),
      (''opacity'', Num 0.5)]"

definition nebula :: jsobj where
  "nebula = map_of
     [(''separation'', Num 120), (''amountX'', Num 40), (''amountY'', Num 30),
      (''color'', Num 0xa855f7), (''color2'', Num 0x22d3ee),
      (''waveHeight'', Num 60), (''waveSpeed'', Num 0.02),
      (''cameraZ'', Num 1800), (''cameraY'', Num 600), (''particleSize'', Num 250),
      (''opacity'', Num 0.35)]"

definition quantum :: jsobj where
  "quantum = map_of
     [(''separation'', Num 70), (''amountX'', Num 70), (''amountY'', Num 45),
      (''color'', Num 0x22d3ee), (''color2'', Num 0x8b5cf6),
      (''waveHeight'', Num 40), (''waveSpeed'', Num 0.04),
      (''cameraZ'', Num 1100), (''cameraY'', Num 350), (''particleSize'', Num 220),
      (''opacity'', Num 0.45)]"

definition governance :: jsobj where
  "governance = map_of
     [(''separation'', Num 90), (''amountX'', Num 55), (''amountY'', Num 35),
      (''color'', Num 0xd4a543), (''color2'', Num 0x8b5cf6),
      (''waveHeight'', Num 25), (''waveSpeed'', Num 0.03),
      (''cameraZ'', Num 1300), (''cameraY'', Num 450), (''particleSize'', Num 190),
      (''opacity'', Num 0.35)]"

definition classical :: jsobj where
  "classical = map_of
     [(''separation'', Num 75), (''amountX'', Num 65), (''amountY'', Num 42),
      (''color'', Num 0x8b5cf6), (''waveHeight'', Num 35), (''waveSpeed'', Num 0.045),
      (''cameraZ'', Num 1150), (''cameraY'', Num 380), (''particleSize'', Num 210),
      (''opacity'', Num 0.4)]"

text \<open>The own properties of \<^verbatim>\<open>WaveHero.presets\<close>, in source order.\<close>

definition presets :: "(string \<times> jsobj) list" where
  "presets =
     [(''waves'', waves), (''particles'', particles), (''grid'', grid),
      (''nebula'', nebula), (''quantum'', quantum), (''governance'', governance),
      (''classical'', classical)]"

text \<open>
  \<^verbatim>\<open>presets\<close> is an object literal, so a property read \<^verbatim>\<open>this.presets[name]\<close> that
  finds no own property continues at \<^verbatim>\<open>Object.prototype\<close>.  The names below are the
  properties found there; each is a function or an object, hence truthy, and has no own
  enumerable property, so spreading it contributes nothing.
\<close>

definition object_prototype_keys :: "string list" where
  "object_prototype_keys =
     [''constructor'', ''__defineGetter__'', ''__defineSetter__'', ''hasOwnProperty'',
      ''__lookupGetter__'', ''__lookupSetter__'', ''isPrototypeOf'',
      ''propertyIsEnumerable'', ''toString'', ''valueOf'', ''__proto__'',
      ''toLocaleString'']"

datatype property = NoProperty | Preset jsobj | Builtin

text \<open>
  The options that \<^verbatim>\<open>init\<close> documents as strings (\<^verbatim>\<open>preset\<close>, \<^verbatim>\<open>container\<close>,
  \<^verbatim>\<open>fallbackId\<close>): such an option is absent (\<^verbatim>\<open>undefined\<close>), a string, or a value
  that is no string.  Of the values that are no strings the model has the symbol, which
  is truthy and whose conversion to a string throws a \<^verbatim>\<open>TypeError\<close>; numbers,
  booleans and objects in these places are not modelled.
\<close>

datatype strval = Unset | Text string | Symbol

datatype error = TypeError | RangeError

text \<open>
  \<^verbatim>\<open>ToString\<close>, as applied by string concatenation and by the string argument of
  \<^verbatim>\<open>document.getElementById\<close>.
\<close>

fun ToString :: "strval \<Rightarrow> error + string" where
  "ToString Unset = Inr ''undefined''"
| "ToString (Text s) = Inr s"
| "ToString Symbol = Inl TypeError"

text \<open>
  \<^verbatim>\<open>this.presets[key]\<close>.  A symbol is a property key of its own, and neither
  \<^verbatim>\<open>presets\<close> nor \<^verbatim>\<open>Object.prototype\<close> has a property keyed by a symbol; the key
  \<^verbatim>\<open>undefined\<close> is the name \<^verbatim>\<open>'undefined'\<close>, which neither has.
\<close>

definition get_preset :: "strval \<Rightarrow> property" where
  "get_preset key =
     (case key of
        Text name \<Rightarrow>
          (case map_of presets name of
             Some p \<Rightarrow> Preset p
           | None \<Rightarrow> if name \<in> set object_prototype_keys then Builtin else NoProperty)
      | _ \<Rightarrow> NoProperty)"

text \<open>The own enumerable properties that \<^verbatim>\<open>{ ...v }\<close> copies.\<close>

fun spread :: "property \<Rightarrow> jsobj" where
  "spread NoProperty = Map.empty"
| "spread (Preset p) = p"
| "spread Builtin = Map.empty"

text \<open>\<^verbatim>\<open>pathPresets\<close>, in source order (\<^verbatim>\<open>Object.entries\<close> keeps insertion order).\<close>

definition pathPresets :: "(string \<times> string) list" where
  "pathPresets =
     [(''/quantum'', ''quantum''), (''/governance'', ''governance''),
      (''/classical'', ''classical''), (''/blog'', ''nebula''),
      (''/about'', ''particles''), (''/visualizations'', ''grid''),
      (''/'', ''waves'')]"

definition startsWith :: "string \<Rightarrow> string \<Rightarrow> bool" where
  "startsWith path pattern = (take (length pattern) path = pattern)"

fun detect_loop :: "(string \<times> string) list \<Rightarrow> string \<Rightarrow> string" where
  "detect_loop [] path = ''waves''"
| "detect_loop ((pattern, preset) # rest) path =
     (if pattern \<noteq> ''/'' \<and> startsWith path pattern then preset
      else detect_loop rest path)"

definition detectPreset :: "string \<Rightarrow> string" where
  "detectPreset path = detect_loop pathPresets path"

section \<open>The options of \<^verbatim>\<open>init\<close> and the resolved configuration\<close>

text \<open>
  An absent option is \<open>Unset\<close> (or \<open>Undefined\<close> for the colour, which may be any value
  of \<open>jsval\<close>); an absent \<^verbatim>\<open>custom\<close> bundle spreads to nothing and is the empty map.
\<close>

record options =
  preset :: strval
  container :: strval
  fallbackId :: strval
  color :: jsval
  custom :: jsobj

definition no_options :: options where
  "no_options =
     \<lparr>preset = Unset, container = Unset, fallbackId = Unset, color = Undefined,
      custom = Map.empty\<rparr>"

text \<open>
  \<^verbatim>\<open>v || d\<close> with a string \<open>d\<close>: \<^verbatim>\<open>undefined\<close> and the empty string are falsy, every
  other string and the symbol are truthy.
\<close>

fun or_else :: "strval \<Rightarrow> string \<Rightarrow> strval" where
  "or_else Unset d = Text d"
| "or_else (Text s) d = (if s = [] then Text d else Text s)"
| "or_else Symbol d = Symbol"

text \<open>
  Lines 193 to 198 of \<^verbatim>\<open>init\<close>:
  \<^verbatim>\<open>presetName = options.preset || this.detectPreset()\<close>,
  \<^verbatim>\<open>preset = this.presets[presetName] || this.presets.waves\<close>,
  \<^verbatim>\<open>config = { ...preset, ...options.custom }\<close>, and the colour override.
\<close>

definition presetName_of :: "string \<Rightarrow> options \<Rightarrow> strval" where
  "presetName_of path opts = or_else (preset opts) (detectPreset path)"

definition chosen_preset :: "strval \<Rightarrow> property" where
  "chosen_preset name =
     (case get_preset name of NoProperty \<Rightarrow> Preset waves | p \<Rightarrow> p)"

definition resolve_config :: "string \<Rightarrow> options \<Rightarrow> jsobj" where
  "resolve_config path opts =
     (let presetName = presetName_of path opts;
          preset = chosen_preset presetName;
          config = spread preset ++ custom opts
      in if truthy (color opts) then config(''color'' \<mapsto> color opts) else config)"

section \<open>Field geometry: the buffers of the GPU tier\<close>

text \<open>
  The numeric fields of a configuration that the geometry reads.  \<open>numeric\<close> reads them
  from a resolved configuration object whose fields are finite numbers.
\<close>

record cfg =
  separation :: real
  amountX :: real
  amountY :: real
  waveHeight :: real
  waveSpeed :: real

fun number :: "jsobj \<Rightarrow> string \<Rightarrow> real option" where
  "number obj k = (case obj k of Some (Num r) \<Rightarrow> Some r | _ \<Rightarrow> None)"

definition numeric :: "jsobj \<Rightarrow> cfg option" where
  "numeric obj =
     (case (number obj ''separation'', number obj ''amountX'', number obj ''amountY'',
            number obj ''waveHeight'', number obj ''waveSpeed'') of
        (Some s, Some ax, Some ay, Some h, Some v) \<Rightarrow>
          Some \<lparr>separation = s, amountX = ax, amountY = ay, waveHeight = h, waveSpeed = v\<rparr>
      | _ \<Rightarrow> None)"

text \<open>
  An element of a \<^verbatim>\<open>Float32Array\<close> is a binary32 number, finite or infinite (the
  arithmetic of the reals produces no \<open>NaN\<close>, and the two zeros are one).  A store
  rounds the number to the nearest binary32 number, a tie to the one whose significand
  is even; what reaches \<open>2 ^ 128\<close> after rounding is infinite.

  \<open>bits n\<close> is the number of binary digits of \<open>n\<close>, so \<open>exponent a\<close> is the exponent
  of the power of 2 at or below \<open>a > 0\<close>; binary32 has 24 significant digits and its
  least exponent is \<open>-126\<close>, below which the numbers are subnormal.
\<close>

datatype float32 = F32 real | PlusInfinity | MinusInfinity

function bits :: "int \<Rightarrow> nat" where
  "bits n = (if n \<le> 0 then 0 else Suc (bits (n div 2)))"
  by pat_completeness auto
termination
  by (relation "measure nat") auto

definition exponent :: "real \<Rightarrow> int" where
  "exponent a =
     (if 1 \<le> a then int (bits \<lfloor>a\<rfloor>) - 1 else - int (bits (\<lceil>1 / a\<rceil> - 1)))"

definition pow2 :: "int \<Rightarrow> real" where
  "pow2 k = (if 0 \<le> k then 2 ^ nat k else 1 / 2 ^ nat (- k))"

definition roundTiesToEven :: "real \<Rightarrow> int" where
  "roundTiesToEven y =
     (let f = \<lfloor>y\<rfloor> in
      if y - of_int f < 1 / 2 then f
      else if 1 / 2 < y - of_int f then f + 1
      else if even f then f else f + 1)"

definition fround :: "real \<Rightarrow> float32" where
  "fround x =
     (if x = 0 then F32 0
      else
        let a = \<bar>x\<bar>;
            ulp = pow2 (max (exponent a) (- 126) - 23);
            m = of_int (roundTiesToEven (a / ulp)) * ulp
        in if pow2 128 \<le> m then (if 0 < x then PlusInfinity else MinusInfinity)
           else F32 (if 0 < x then m else - m))"

text \<open>
  \<^verbatim>\<open>new Float32Array(n)\<close> for a finite number \<open>n\<close>.  \<^verbatim>\<open>ToIndex\<close> truncates \<open>n\<close>
  towards zero and throws a \<^verbatim>\<open>RangeError\<close> unless the result lies between 0 and
  \<open>2 ^ 53 - 1\<close>.  The host then allocates the array unless it is too long for it, a
  \<^verbatim>\<open>RangeError\<close> too; \<open>limit\<close> is the greatest length the host allocates.  The
  elements start at 0.
\<close>

definition ToIndex :: "real \<Rightarrow> error + nat" where
  "ToIndex n =
     (let integer = (if n < 0 then \<lceil>n\<rceil> else \<lfloor>n\<rfloor>)
      in if integer < 0 \<or> 2 ^ 53 - 1 < integer then Inl RangeError else Inr (nat integer))"

definition Float32Array :: "nat \<Rightarrow> real \<Rightarrow> error + float32 list" where
  "Float32Array limit n =
     (case ToIndex n of
        Inl e \<Rightarrow> Inl e
      | Inr len \<Rightarrow> if limit < len then Inl RangeError else Inr (replicate len (F32 0)))"

text \<open>
  An element store \<^verbatim>\<open>a[i] = v\<close> on a \<^verbatim>\<open>Float32Array\<close>: it rounds \<open>v\<close> to binary32,
  and out of range it does nothing.
\<close>

definition put :: "float32 list \<Rightarrow> nat \<Rightarrow> real \<Rightarrow> float32 list" where
  "put a i v = (if i < length a then a[i := fround v] else a)"

text \<open>
  The loop state of the nested \<^verbatim>\<open>for\<close> loops: the cursors \<^verbatim>\<open>i\<close> and \<^verbatim>\<open>j\<close>, the
  position array and the scale array.
\<close>

type_synonym cursor = "nat \<times> nat \<times> float32 list \<times> float32 list"

text \<open>Lines 272 to 281 of \<^verbatim>\<open>initWebGL\<close>: the inner loop over \<^verbatim>\<open>iy\<close>, then the outer.\<close>

function layout_row :: "cfg \<Rightarrow> nat \<Rightarrow> nat \<Rightarrow> cursor \<Rightarrow> cursor" where
  "layout_row c ix iy (i, j, positions, scales) =
     (if real iy < amountY c then
        layout_row c ix (Suc iy)
          (i + 3, j + 1,
           put (put (put positions i
                  (real ix * separation c - (amountX c * separation c) / 2))
                  (i + 1) 0)
                  (i + 2) (real iy * separation c - (amountY c * separation c) / 2),
           put scales j 1)
      else (i, j, positions, scales))"
  by pat_completeness auto
termination
  by (relation "measure (\<lambda>(c, ix, iy, st). nat \<lceil>amountY c\<rceil> - iy)") (auto, linarith)

function layout_grid :: "cfg \<Rightarrow> nat \<Rightarrow> cursor \<Rightarrow> cursor" where
  "layout_grid c ix st =
     (if real ix < amountX c then layout_grid c (Suc ix) (layout_row c ix 0 st) else st)"
  by pat_completeness auto
termination
  by (relation "measure (\<lambda>(c, ix, st). nat \<lceil>amountX c\<rceil> - ix)") (auto, linarith)

text \<open>
  Lines 268 to 281: allocation of both arrays, then the layout.  An exception of either
  allocation leaves the \<^verbatim>\<open>try\<close> block of \<^verbatim>\<open>initWebGL\<close>: no buffer is built.
\<close>

definition build_buffers :: "nat \<Rightarrow> cfg \<Rightarrow> error + float32 list \<times> float32 list" where
  "build_buffers limit c =
     (let numParticles = amountX c * amountY c in
      case Float32Array limit (numParticles * 3) of
        Inl e \<Rightarrow> Inl e
      | Inr positions \<Rightarrow>
          (case Float32Array limit numParticles of
             Inl e \<Rightarrow> Inl e
           | Inr scales \<Rightarrow>
               (case layout_grid c 0 (0, 0, positions, scales) of
                  (i, j, pos, scl) \<Rightarrow> Inr (pos, scl))))"

text \<open>Lines 445 to 457 of \<^verbatim>\<open>animate\<close>: the wave update of one frame at time cursor \<open>count\<close>.\<close>

function wave_row :: "cfg \<Rightarrow> real \<Rightarrow> nat \<Rightarrow> nat \<Rightarrow> cursor \<Rightarrow> cursor" where
  "wave_row c count ix iy (i, j, pos, scl) =
     (if real iy < amountY c then
        wave_row c count ix (Suc iy)
          (i + 3, j + 1,
           put pos (i + 1)
             (sin ((real ix + count) * 0.3) * waveHeight c +
              sin ((real iy + count) * 0.5) * waveHeight c),
           put scl j
             ((sin ((real ix + count) * 0.3) + 1) * 8 +
              (sin ((real iy + count) * 0.5) + 1) * 8))
      else (i, j, pos, scl))"
  by pat_completeness auto
termination
  by (relation "measure (\<lambda>(c, count, ix, iy, st). nat \<lceil>amountY c\<rceil> - iy)") (auto, linarith)

function wave_grid :: "cfg \<Rightarrow> real \<Rightarrow> nat \<Rightarrow> cursor \<Rightarrow> cursor" where
  "wave_grid c count ix st =
     (if real ix < amountX c then wave_grid c count (Suc ix) (wave_row c count ix 0 st)
      else st)"
  by pat_completeness auto
termination
  by (relation "measure (\<lambda>(c, count, ix, st). nat \<lceil>amountX c\<rceil> - ix)") (auto, linarith)

definition wave_update ::
  "cfg \<Rightarrow> real \<Rightarrow> float32 list \<times> float32 list \<Rightarrow> float32 list \<times> float32 list" where
  "wave_update c count b =
     (case wave_grid c count 0 (0, 0, fst b, snd b) of (i, j, pos, scl) \<Rightarrow> (pos, scl))"

text \<open>
  \<open>n\<close> frames of the loop: each frame updates the buffers at the current \<^verbatim>\<open>count\<close> and
  then advances it by \<^verbatim>\<open>waveSpeed\<close>.  \<^verbatim>\<open>setupInteraction\<close> starts \<^verbatim>\<open>count\<close> at 0.
\<close>

fun animate_frames ::
  "nat \<Rightarrow> cfg \<Rightarrow> real \<times> float32 list \<times> float32 list \<Rightarrow> real \<times> float32 list \<times> float32 list" where
  "animate_frames 0 c st = st"
| "animate_frames (Suc n) c (count, b) =
     animate_frames n c (count + waveSpeed c, wave_update c count b)"

section \<open>Field geometry: the elements of the DOM-transform tier\<close>

text \<open>A \<^verbatim>\<open>CSS3DObject\<close>: its position (initially the origin) and its \<^verbatim>\<open>userData\<close>.\<close>

record css3d_object =
  position_x :: real
  position_y :: real
  position_z :: real
  userData :: "nat \<times> nat"

text \<open>Lines 370 to 385 of \<^verbatim>\<open>startCSS3D\<close>; the arguments are its three local constants.\<close>

function css3d_row :: "real \<Rightarrow> real \<Rightarrow> real \<Rightarrow> nat \<Rightarrow> nat \<Rightarrow> css3d_object list \<Rightarrow> css3d_object list" where
  "css3d_row aX aY sep ix iy objs =
     (if real iy < aY then
        css3d_row aX aY sep ix (Suc iy)
          (objs @
           [\<lparr>position_x = real ix * sep - (aX * sep) / 2,
             position_y = 0,
             position_z = real iy * sep - (aY * sep) / 2,
             userData = (ix, iy)\<rparr>])
      else objs)"
  by pat_completeness auto
termination
  by (relation "measure (\<lambda>(aX, aY, sep, ix, iy, objs). nat \<lceil>aY\<rceil> - iy)") (auto, linarith)

function css3d_grid :: "real \<Rightarrow> real \<Rightarrow> real \<Rightarrow> nat \<Rightarrow> css3d_object list \<Rightarrow> css3d_object list" where
  "css3d_grid aX aY sep ix objs =
     (if real ix < aX then css3d_grid aX aY sep (Suc ix) (css3d_row aX aY sep ix 0 objs)
      else objs)"
  by pat_completeness auto
termination
  by (relation "measure (\<lambda>(aX, aY, sep, ix, objs). nat \<lceil>aX\<rceil> - ix)") (auto, linarith)

text \<open>Lines 357 to 359: the reduced grid and the widened spacing of the DOM tier.\<close>

definition css3d_amountX :: "cfg \<Rightarrow> real" where
  "css3d_amountX c = min (amountX c) 20"

definition css3d_amountY :: "cfg \<Rightarrow> real" where
  "css3d_amountY c = min (amountY c) 15"

definition css3d_separation :: "cfg \<Rightarrow> real" where
  "css3d_separation c = separation c * 1.5"

definition css3d_particles :: "cfg \<Rightarrow> css3d_object list" where
  "css3d_particles c =
     css3d_grid (css3d_amountX c) (css3d_amountY c) (css3d_separation c) 0 []"

text \<open>
  The width and depth of the grid of each tier: the products that the two layouts halve
  to centre the grid at the origin (lines 275 and 277, lines 379 and 380).
\<close>

definition gpu_extent :: "cfg \<Rightarrow> real \<times> real" where
  "gpu_extent c = (amountX c * separation c, amountY c * separation c)"

definition css3d_extent :: "cfg \<Rightarrow> real \<times> real" where
  "css3d_extent c =
     (css3d_amountX c * css3d_separation c, css3d_amountY c * css3d_separation c)"

section \<open>The pipeline controller\<close>

text \<open>
  The singleton \<^verbatim>\<open>WaveHero\<close> and the part of the page it acts on are one state record.
  What the host decides (the URL path, whether \<^verbatim>\<open>document.body\<close> and
  \<^verbatim>\<open>document.head\<close> exist, whether a WebGL context can be had, whether a constructor
  of the rendering library throws) is the environment \<open>env\<close> under which one call or one
  callback runs.

  \<open>webgl_throws\<close> says that a statement of the \<^verbatim>\<open>try\<close> block of \<^verbatim>\<open>initWebGL\<close> up to and
  including \<^verbatim>\<open>new THREE.WebGLRenderer\<close> throws, the allocation of the buffers among
  them; \<open>css3d_throws\<close> says the same of \<^verbatim>\<open>startCSS3D\<close> up to and including
  \<^verbatim>\<open>new THREE.CSS3DRenderer\<close>.  What is thrown there is an object, so that reading its
  \<^verbatim>\<open>message\<close> in the \<^verbatim>\<open>catch\<close> block does not throw.  The calls on a renderer once
  it is built, and painting a frame, are taken not to throw.
\<close>

datatype gl_context = ContextThrows | NoContext | SomeContext

record env =
  pathname :: string
  body :: bool
  head :: bool
  WebGLRenderingContext :: bool
  getContext :: gl_context
  webgl_throws :: bool
  css3d_throws :: bool

datatype script = ThreeScript | CSS3DScript

datatype loop = GpuLoop | DomLoop

text \<open>The functions whose entry marks a tier; \<open>calls\<close> records them in order.\<close>

datatype call = InitWebGL | InitCSS3D | StartCSS3D | ShowFallback

datatype reason = ThreeLoadFailed | CSS3DLoadFailed | CSS3DFailed

datatype message =
    AlreadyInitialized
  | Initializing string
  | CanvasNotFound
  | WebGLActive
  | WebGLFailed
  | CSS3DActive
  | UsingFallback reason

text \<open>
  The fields of \<^verbatim>\<open>WaveHero\<close> come first (a renderer field is \<open>True\<close> when it is not
  \<^verbatim>\<open>null\<close>; \<open>containerId\<close> is \<^verbatim>\<open>undefined\<close> until \<^verbatim>\<open>init\<close> sets it; \<open>fallbackEl\<close>
  is the id of the element it refers to).  Then the page:
  whether \<^verbatim>\<open>window.THREE\<close> is defined, the ids of the elements of the document, the ids
  of the elements carrying the class \<^verbatim>\<open>hidden\<close>, whether the DOM tier's element is
  attached, the script loads in flight, the animation frame requests in flight with the
  loop each would call, the next request handle, the console, and the tier entries.
\<close>

record state =
  config :: "jsobj option"
  renderer :: bool
  css3dRenderer :: bool
  animationId :: "nat option"
  initialized :: bool
  containerId :: strval
  fallbackEl :: "string option"
  THREE :: bool
  elements :: "string list"
  hidden :: "string list"
  css3d_attached :: bool
  scripts :: "script list"
  frames :: "(nat \<times> loop) list"
  next_handle :: nat
  console :: "message list"
  calls :: "call list"

text \<open>
  A page on which the script has just been evaluated: every field of \<^verbatim>\<open>WaveHero\<close> has
  its initial value, and the first animation frame handle of a document is 1.
\<close>

definition page :: "bool \<Rightarrow> string list \<Rightarrow> state" where
  "page three ids =
     \<lparr>config = None, renderer = False, css3dRenderer = False, animationId = None,
      initialized = False, containerId = Unset, fallbackEl = None,
      THREE = three, elements = ids, hidden = [], css3d_attached = False,
      scripts = [], frames = [], next_handle = 1, console = [], calls = []\<rparr>"

definition getElementById :: "state \<Rightarrow> string \<Rightarrow> string option" where
  "getElementById s i = (if i \<in> set (elements s) then Some i else None)"

text \<open>
  \<^verbatim>\<open>createElements\<close>: \<^verbatim>\<open>document.body.insertBefore\<close> is a \<^verbatim>\<open>TypeError\<close> while
  \<^verbatim>\<open>document.body\<close> is \<^verbatim>\<open>null\<close>.
\<close>

definition createElements :: "env \<Rightarrow> state \<Rightarrow> error option \<times> state" where
  "createElements e s =
     (if ''wavehero-canvas'' \<in> set (elements s) then
        (if ''wavehero-fallback'' \<in> set (elements s) then (None, s)
         else if body e then
           (None, s\<lparr>elements := ''wavehero-fallback'' # elements s\<rparr>)
         else (Some TypeError, s))
      else if body e then
        (if ''wavehero-fallback'' \<in> set (elements s) then
           (None, s\<lparr>elements := ''wavehero-canvas'' # elements s\<rparr>)
         else
           (None, s\<lparr>elements := ''wavehero-fallback'' # ''wavehero-canvas'' # elements s\<rparr>))
      else (Some TypeError, s))"

text \<open>
  One call of \<^verbatim>\<open>loop\<close>, of \<^verbatim>\<open>animate\<close> or of \<^verbatim>\<open>animateCSS3D\<close>: it requests the next
  frame first and stores the handle.  What it paints is the field geometry above.
\<close>

definition run_loop :: "loop \<Rightarrow> state \<Rightarrow> state" where
  "run_loop k s =
     s\<lparr>animationId := Some (next_handle s),
       frames := frames s @ [(next_handle s, k)],
       next_handle := Suc (next_handle s)\<rparr>"

definition animate :: "state \<Rightarrow> state" where
  "animate s = run_loop GpuLoop s"

definition animateCSS3D :: "state \<Rightarrow> state" where
  "animateCSS3D s = run_loop DomLoop s"

definition showFallback :: "reason \<Rightarrow> state \<Rightarrow> state" where
  "showFallback r s =
     s\<lparr>console := console s @ [UsingFallback r], calls := calls s @ [ShowFallback]\<rparr>"

text \<open>\<^verbatim>\<open>if (this.fallbackEl) this.fallbackEl.classList.add('hidden')\<close>.\<close>

definition hide_fallback :: "state \<Rightarrow> state" where
  "hide_fallback s =
     (case fallbackEl s of None \<Rightarrow> s | Some f \<Rightarrow> s\<lparr>hidden := f # hidden s\<rparr>)"

text \<open>
  \<^verbatim>\<open>setupInteraction\<close> registers the pointer handler on \<^verbatim>\<open>document.body\<close>, a
  \<^verbatim>\<open>TypeError\<close> while that is \<^verbatim>\<open>null\<close>, and the resize handler on the window.  The
  handlers and the fields it resets belong to the camera and the pointer, which the
  state does not carry.
\<close>

definition setupInteraction :: "env \<Rightarrow> state \<Rightarrow> error option \<times> state" where
  "setupInteraction e s = (if body e then (None, s) else (Some TypeError, s))"

text \<open>
  \<^verbatim>\<open>initCSS3D\<close> requests the script of the DOM tier's renderer:
  \<^verbatim>\<open>document.head.appendChild\<close> is a \<^verbatim>\<open>TypeError\<close> while \<^verbatim>\<open>document.head\<close> is
  \<^verbatim>\<open>null\<close>, and then no load is in flight.
\<close>

definition initCSS3D :: "env \<Rightarrow> state \<Rightarrow> error option \<times> state" where
  "initCSS3D e s0 =
     (let s = s0\<lparr>calls := calls s0 @ [InitCSS3D]\<rparr> in
      if head e then (None, s\<lparr>scripts := scripts s @ [CSS3DScript]\<rparr>)
      else (Some TypeError, s))"

text \<open>\<^verbatim>\<open>cfg.color.toString(16)\<close> is a \<^verbatim>\<open>TypeError\<close> when the colour is undefined or null.\<close>

definition color_missing :: "jsobj \<Rightarrow> bool" where
  "color_missing cfg =
     (case cfg ''color'' of None \<Rightarrow> True | Some Undefined \<Rightarrow> True | Some Null \<Rightarrow> True
      | Some v \<Rightarrow> False)"

text \<open>
  \<^verbatim>\<open>startCSS3D\<close>.  Reading \<^verbatim>\<open>cfg.amountX\<close> stands before the \<^verbatim>\<open>try\<close>; inside it the
  constructors come first, then the renderer, whose element is inserted into
  \<^verbatim>\<open>document.body\<close>, then the fallback is hidden, the handlers are registered and
  the loop is started.  Every exception of the \<^verbatim>\<open>try\<close> block ends in
  \<^verbatim>\<open>showFallback\<close>.
\<close>

definition startCSS3D :: "env \<Rightarrow> state \<Rightarrow> error option \<times> state" where
  "startCSS3D e s0 =
     (let s = s0\<lparr>calls := calls s0 @ [StartCSS3D]\<rparr> in
      case config s of
        None \<Rightarrow> (Some TypeError, s)
      | Some cfg \<Rightarrow>
          if css3d_throws e \<or> color_missing cfg then (None, showFallback CSS3DFailed s)
          else if body e then
            (case setupInteraction e
                    (hide_fallback
                      (s\<lparr>css3dRenderer := True, css3d_attached := True\<rparr>)
                      \<lparr>console := console s @ [CSS3DActive]\<rparr>) of
               (None, s2) \<Rightarrow> (None, animateCSS3D s2)
             | (Some err, s2) \<Rightarrow> (None, showFallback CSS3DFailed s2))
          else (None, showFallback CSS3DFailed (s\<lparr>css3dRenderer := True\<rparr>)))"

text \<open>
  \<^verbatim>\<open>initWebGL\<close>.  The container lookup, which converts \<^verbatim>\<open>containerId\<close> to a
  string, and the second \<^verbatim>\<open>createElements\<close> stand before the \<^verbatim>\<open>try\<close>.  With no
  container element the renderer's constructor throws.  Once the renderer is built the
  fallback is hidden, the handlers are registered and the loop is started.  Every
  exception of the \<^verbatim>\<open>try\<close> block is caught and hands over to \<^verbatim>\<open>initCSS3D\<close>, whose own
  exception leaves the \<^verbatim>\<open>catch\<close> block.
\<close>

definition initWebGL :: "env \<Rightarrow> state \<Rightarrow> error option \<times> state" where
  "initWebGL e s0 =
     (let s = s0\<lparr>calls := calls s0 @ [InitWebGL]\<rparr> in
      case ToString (containerId s) of
        Inl err \<Rightarrow> (Some err, s)
      | Inr cid \<Rightarrow>
          (let (r, s1) =
                 (if getElementById s cid = None
                  then createElements e (s\<lparr>console := console s @ [CanvasNotFound]\<rparr>)
                  else (None, s))
           in case r of
                Some err \<Rightarrow> (Some err, s1)
              | None \<Rightarrow>
                  if webgl_throws e \<or> getElementById s1 cid = None then
                    initCSS3D e (s1\<lparr>console := console s1 @ [WebGLFailed]\<rparr>)
                  else
                    (case setupInteraction e
                            (hide_fallback (s1\<lparr>renderer := True\<rparr>)
                              \<lparr>console := console s1 @ [WebGLActive]\<rparr>) of
                       (None, s2) \<Rightarrow> (None, animate s2)
                     | (Some err, s2) \<Rightarrow>
                         initCSS3D e (s2\<lparr>console := console s2 @ [WebGLFailed]\<rparr>))))"

text \<open>
  \<^verbatim>\<open>webglSupported\<close>: \<^verbatim>\<open>getContext\<close> is called only when
  \<^verbatim>\<open>window.WebGLRenderingContext\<close> is truthy, and an exception counts as no support.
\<close>

definition webglSupported :: "env \<Rightarrow> bool" where
  "webglSupported e =
     (if WebGLRenderingContext e then
        (case getContext e of ContextThrows \<Rightarrow> False | NoContext \<Rightarrow> False | SomeContext \<Rightarrow> True)
      else False)"

definition onThreeLoaded :: "env \<Rightarrow> state \<Rightarrow> error option \<times> state" where
  "onThreeLoaded e s = (if webglSupported e then initWebGL e s else initCSS3D e s)"

text \<open>
  \<^verbatim>\<open>loadThreeJS\<close> requests the library unless it is there already; the request needs
  \<^verbatim>\<open>document.head\<close> as that of \<^verbatim>\<open>initCSS3D\<close> does.
\<close>

definition loadThreeJS :: "env \<Rightarrow> state \<Rightarrow> error option \<times> state" where
  "loadThreeJS e s =
     (if THREE s then onThreeLoaded e s
      else if head e then (None, s\<lparr>scripts := scripts s @ [ThreeScript]\<rparr>)
      else (Some TypeError, s))"

text \<open>
  The argument of \<^verbatim>\<open>init(options = {})\<close>: the default applies to a missing or undefined
  argument only, so \<^verbatim>\<open>null\<close> reaches \<^verbatim>\<open>options.preset\<close>, a \<^verbatim>\<open>TypeError\<close>.

  \<^verbatim>\<open>init\<close> itself, line by line: the guard; the configuration (lines 193 to 198);
  \<^verbatim>\<open>createElements\<close>; \<^verbatim>\<open>containerId\<close>; the lookup of the fallback element, which
  converts its argument to a string; the log line, which converts the preset name to a
  string; the flag; \<^verbatim>\<open>loadThreeJS\<close>.  An exception leaves \<^verbatim>\<open>init\<close> with what was
  written before it.
\<close>

datatype argument = ArgUndefined | ArgNull | ArgObject options

definition init :: "env \<Rightarrow> argument \<Rightarrow> state \<Rightarrow> error option \<times> state" where
  "init e a s =
     (if initialized s then (None, s\<lparr>console := console s @ [AlreadyInitialized]\<rparr>)
      else case a of
        ArgNull \<Rightarrow> (Some TypeError, s)
      | _ \<Rightarrow>
         (let opts = (case a of ArgObject x \<Rightarrow> x | _ \<Rightarrow> no_options);
              presetName = presetName_of (pathname e) opts;
              (r, s1) = createElements e (s\<lparr>config := Some (resolve_config (pathname e) opts)\<rparr>)
          in case r of
               Some err \<Rightarrow> (Some err, s1)
             | None \<Rightarrow>
                 (let s2 = s1\<lparr>containerId := or_else (container opts) ''wavehero-canvas''\<rparr> in
                  case ToString (or_else (fallbackId opts) ''wavehero-fallback'') of
                    Inl err \<Rightarrow> (Some err, s2)
                  | Inr fid \<Rightarrow>
                      (let s3 = s2\<lparr>fallbackEl := getElementById s2 fid\<rparr> in
                       case ToString presetName of
                         Inl err \<Rightarrow> (Some err, s3)
                       | Inr name \<Rightarrow>
                           loadThreeJS e
                             (s3\<lparr>console := console s3 @ [Initializing name],
                                 initialized := True\<rparr>)))))"

text \<open>
  \<^verbatim>\<open>destroy\<close>.  \<^verbatim>\<open>cancelAnimationFrame\<close> removes the request with the stored handle, if
  it is still in flight; the handle 0 is falsy.  Neither \<^verbatim>\<open>animationId\<close> nor the renderer
  fields are reset.
\<close>

definition cancelAnimationFrame :: "nat \<Rightarrow> state \<Rightarrow> state" where
  "cancelAnimationFrame h s = s\<lparr>frames := filter (\<lambda>f. fst f \<noteq> h) (frames s)\<rparr>"

definition destroy :: "state \<Rightarrow> state" where
  "destroy s =
     (let s1 = (case animationId s of
                  None \<Rightarrow> s
                | Some h \<Rightarrow> if h \<noteq> 0 then cancelAnimationFrame h s else s);
          s2 = (if css3dRenderer s1 \<and> css3d_attached s1 then s1\<lparr>css3d_attached := False\<rparr> else s1)
      in s2\<lparr>initialized := False\<rparr>)"

text \<open>
  What can happen to the page: the host calls \<^verbatim>\<open>init\<close> or \<^verbatim>\<open>destroy\<close>, a script load in
  flight succeeds or fails, or an animation frame request in flight is served.  A
  successful load of the library defines \<^verbatim>\<open>window.THREE\<close>.  An exception of \<^verbatim>\<open>init\<close>
  goes to its caller and one of a callback to the browser; the state keeps what was
  written before it.
\<close>

datatype event =
    CallInit argument
  | CallDestroy
  | ScriptLoad script
  | ScriptError script
  | Frame nat

fun onload :: "env \<Rightarrow> script \<Rightarrow> state \<Rightarrow> state" where
  "onload e ThreeScript s = snd (onThreeLoaded e (s\<lparr>THREE := True\<rparr>))"
| "onload e CSS3DScript s = snd (startCSS3D e s)"

fun onerror :: "script \<Rightarrow> state \<Rightarrow> state" where
  "onerror ThreeScript s = showFallback ThreeLoadFailed s"
| "onerror CSS3DScript s = showFallback CSS3DLoadFailed s"

fun step :: "env \<Rightarrow> event \<Rightarrow> state \<Rightarrow> state" where
  "step e (CallInit a) s = snd (init e a s)"
| "step e CallDestroy s = destroy s"
| "step e (ScriptLoad sc) s =
     (if sc \<in> set (scripts s) then onload e sc (s\<lparr>scripts := remove1 sc (scripts s)\<rparr>)
      else s)"
| "step e (ScriptError sc) s =
     (if sc \<in> set (scripts s) then onerror sc (s\<lparr>scripts := remove1 sc (scripts s)\<rparr>)
      else s)"
| "step e (Frame h) s =
     (case map_of (frames s) h of
        None \<Rightarrow> s
      | Some k \<Rightarrow> run_loop k (cancelAnimationFrame h s))"

fun run :: "(env \<times> event) list \<Rightarrow> state \<Rightarrow> state" where
  "run [] s = s"
| "run ((e, ev) # evs) s = run evs (step e ev s)"

section \<open>Invariants of the loops\<close>

text \<open>
  The state of the layout loops on entering the iteration \<open>(ix, iy)\<close> of a grid with
  \<open>ny\<close> points per column: the cursors, the heights at rest and the scales of the cells
  laid out so far.
\<close>

fun laid_out :: "nat \<Rightarrow> nat \<Rightarrow> nat \<Rightarrow> cursor \<Rightarrow> bool" where
  "laid_out ny ix iy (i, j, p, s) =
     (j = ix * ny + iy \<and> i = 3 * j \<and>
      (\<forall>k<length p. k mod 3 = 1 \<longrightarrow> p ! k = F32 0) \<and>
      (\<forall>m<j. m < length s \<longrightarrow> s ! m = F32 1))"

text \<open>
  The state of the loops of the wave update at time cursor \<open>t\<close> on entering the
  iteration \<open>(ix, iy)\<close>: the cursors, and the height and the scale stored for each cell
  passed so far.
\<close>

fun waved :: "cfg \<Rightarrow> real \<Rightarrow> nat \<Rightarrow> nat \<Rightarrow> nat \<Rightarrow> cursor \<Rightarrow> bool" where
  "waved c t ny ix iy (i, j, p, s) =
     (j = ix * ny + iy \<and> i = 3 * j \<and>
      (\<forall>m<j. 3 * m + 1 < length p \<longrightarrow>
         p ! (3 * m + 1) =
           fround (sin ((real (m div ny) + t) * 0.3) * waveHeight c +
                   sin ((real (m mod ny) + t) * 0.5) * waveHeight c)) \<and>
      (\<forall>m<j. m < length s \<longrightarrow>
         s ! m =
           fround ((sin ((real (m div ny) + t) * 0.3) + 1) * 8 +
                   (sin ((real (m mod ny) + t) * 0.5) + 1) * 8)))"

text \<open>A sequence of element stores, each an index and the number stored there.\<close>

definition writes :: "(nat \<times> real) list \<Rightarrow> float32 list \<Rightarrow> float32 list" where
  "writes W a = fold (\<lambda>w a. put a (fst w) (snd w)) W a"

text \<open>An element of the DOM tier sits where its grid indices put it.\<close>

definition placed :: "real \<Rightarrow> real \<Rightarrow> real \<Rightarrow> css3d_object \<Rightarrow> bool" where
  "placed aX aY sep obj =
     (real (fst (userData obj)) < aX \<and> real (snd (userData obj)) < aY \<and>
      position_x obj = real (fst (userData obj)) * sep - (aX * sep) / 2 \<and>
      position_z obj = real (snd (userData obj)) * sep - (aY * sep) / 2)"

section \<open>Observations of the controller\<close>


text \<open>
  The tier entries of one session, from \<^verbatim>\<open>init\<close> up to \<^verbatim>\<open>destroy\<close>: the GPU tier
  comes first if at all, the DOM tier follows it or starts the list, and the static
  fallback ends it; the GPU tier is never followed by the static fallback directly.
\<close>

definition session_traces :: "call list list" where
  "session_traces =
     [[],
      [InitWebGL],
      [InitWebGL, InitCSS3D],
      [InitWebGL, InitCSS3D, StartCSS3D],
      [InitWebGL, InitCSS3D, StartCSS3D, ShowFallback],
      [InitWebGL, InitCSS3D, ShowFallback],
      [InitCSS3D],
      [InitCSS3D, StartCSS3D],
      [InitCSS3D, StartCSS3D, ShowFallback],
      [InitCSS3D, ShowFallback],
      [ShowFallback]]"

text \<open>
  An argument of \<^verbatim>\<open>init\<close> of the documented shape: none, or an object whose
  \<^verbatim>\<open>preset\<close>, \<^verbatim>\<open>container\<close> and \<^verbatim>\<open>fallbackId\<close> are strings where they are given.
\<close>

fun plain :: "argument \<Rightarrow> bool" where
  "plain ArgUndefined = True"
| "plain ArgNull = False"
| "plain (ArgObject opts) =
     (preset opts \<noteq> Symbol \<and> container opts \<noteq> Symbol \<and> fallbackId opts \<noteq> Symbol)"




fun is_init :: "event \<Rightarrow> bool" where
  "is_init (CallInit a) = True"
| "is_init ev = False"

text \<open>Every \<^verbatim>\<open>destroy\<close> of the run is called while no script load is in flight.\<close>

fun idle_destroys :: "(env \<times> event) list \<Rightarrow> state \<Rightarrow> bool" where
  "idle_destroys [] s = True"
| "idle_destroys ((e, ev) # evs) s =
     ((if ev = CallDestroy then scripts s = [] else True) \<and> idle_destroys evs (step e ev s))"

text \<open>A host with a body, a head and WebGL support, whose constructors throw as told.\<close>

definition host :: "bool \<Rightarrow> bool \<Rightarrow> env" where
  "host gpu_fails dom_fails =
     \<lparr>pathname = ''/'', body = True, head = True, WebGLRenderingContext = True,
      getContext = SomeContext, webgl_throws = gpu_fails, css3d_throws = dom_fails\<rparr>"

section \<open>Invariants of the controller\<close>


text \<open>
  The script loads in flight and the tier entries so far, in a page on which
  \<^verbatim>\<open>destroy\<close> has not been called.  The last two pairs are those of a page without
  \<^verbatim>\<open>document.head\<close>, where the DOM tier is entered and its script cannot be requested.
\<close>

definition in_session :: "state \<Rightarrow> bool" where
  "in_session s =
     ((scripts s, calls s) \<in> set
        [([], []),
         ([ThreeScript], []),
         ([], [InitWebGL]),
         ([CSS3DScript], [InitWebGL, InitCSS3D]),
         ([CSS3DScript], [InitCSS3D]),
         ([], [InitWebGL, InitCSS3D, StartCSS3D]),
         ([], [InitWebGL, InitCSS3D, StartCSS3D, ShowFallback]),
         ([], [InitWebGL, InitCSS3D, ShowFallback]),
         ([], [InitCSS3D, StartCSS3D]),
         ([], [InitCSS3D, StartCSS3D, ShowFallback]),
         ([], [InitCSS3D, ShowFallback]),
         ([], [ShowFallback]),
         ([], [InitWebGL, InitCSS3D]),
         ([], [InitCSS3D])] \<and>
      (initialized s \<or> (scripts s = [] \<and> calls s = [])))"

text \<open>
  At most one script load or frame request is in flight, and a frame request in flight
  is the one whose handle \<^verbatim>\<open>animationId\<close> holds.
\<close>

definition one_loop :: "state \<Rightarrow> bool" where
  "one_loop s =
     (1 \<le> next_handle s \<and>
      (initialized s \<or> (scripts s = [] \<and> frames s = [])) \<and>
      length (scripts s) + length (frames s) \<le> 1 \<and>
      list_all (\<lambda>f. animationId s = Some (fst f) \<and> fst f \<noteq> 0) (frames s))"

text \<open>
  What a function of the controller below \<^verbatim>\<open>init\<close> does to the fields the invariants
  read: it adds script loads and tier entries and starts no loop, or it adds tier
  entries and starts the loop \<open>k\<close>; it leaves the flag, the configuration and the
  container id alone.
\<close>

definition quiet_step :: "state \<Rightarrow> state \<Rightarrow> script list \<Rightarrow> call list \<Rightarrow> bool" where
  "quiet_step s s' sc cs =
     (scripts s' = scripts s @ sc \<and> calls s' = calls s @ cs \<and> frames s' = frames s \<and>
      animationId s' = animationId s \<and> next_handle s' = next_handle s \<and>
      initialized s' = initialized s \<and> config s' = config s \<and>
      containerId s' = containerId s \<and>
      set (elements s) \<subseteq> set (elements s'))"

definition loop_step :: "state \<Rightarrow> state \<Rightarrow> loop \<Rightarrow> call list \<Rightarrow> bool" where
  "loop_step s s' k cs =
     (scripts s' = scripts s \<and> calls s' = calls s @ cs \<and>
      frames s' = frames s @ [(next_handle s, k)] \<and>
      animationId s' = Some (next_handle s) \<and> next_handle s' = Suc (next_handle s) \<and>
      initialized s' = initialized s \<and> config s' = config s \<and>
      containerId s' = containerId s \<and>
      set (elements s) \<subseteq> set (elements s'))"

text \<open>Two states that agree on those fields, the second with no fewer elements.\<close>

definition alike :: "state \<Rightarrow> state \<Rightarrow> bool" where
  "alike s t =
     (scripts t = scripts s \<and> calls t = calls s \<and> frames t = frames s \<and>
      animationId t = animationId s \<and> next_handle t = next_handle s \<and>
      hidden t = hidden s \<and> css3dRenderer t = css3dRenderer s \<and>
      set (elements s) \<subseteq> set (elements t))"


section \<open>The buffers of the GPU tier\<close>

declare layout_row.simps [simp del] layout_grid.simps [simp del]
  wave_row.simps [simp del] wave_grid.simps [simp del]
  css3d_row.simps [simp del] css3d_grid.simps [simp del]

declare bits.simps [simp del]

subsection \<open>Rounding to binary32\<close>

lemma bits_numeral [simp]:
  "bits 0 = 0"
  "bits 1 = 1"
  "bits (numeral k) = Suc (bits (numeral k div 2))"
  by (simp_all add: bits.simps [of 0] bits.simps [of 1] bits.simps [of "numeral k"])

lemmas fround_defs = fround_def exponent_def pow2_def roundTiesToEven_def Let_def

lemma fround_0 [simp]: "fround 0 = F32 0"
  by (simp add: fround_def)

lemma fround_1 [simp]: "fround 1 = F32 1"
  by (simp add: fround_defs)

text \<open>
  A number with a short binary expansion is stored as it is, one without is not: a
  twentieth becomes \<open>13421773 / 2 ^ 28\<close>, and \<open>10 ^ 39\<close> is beyond the finite numbers.
\<close>

lemma fround_examples:
  "fround (- 10) = F32 (- 10)"
  "fround 16 = F32 16"
  "fround (- 0.05) = F32 (- 13421773 / 268435456)"
  "fround (10 ^ 39) = PlusInfinity"
  by (simp_all add: fround_defs)

subsection \<open>The layout\<close>

lemma length_put [simp]: "length (put a i v) = length a"
  by (simp add: put_def)

lemma nth_put: "k < length a \<Longrightarrow> put a i v ! k = (if k = i then fround v else a ! k)"
  by (simp add: put_def)

lemma less_ceiling: "real n < a \<longleftrightarrow> n < nat \<lceil>a\<rceil>"
  by (simp add: less_ceiling_iff zless_nat_eq_int_zless)

lemma layout_row_length:
  "layout_row c ix iy st = (i', j', p', s') \<Longrightarrow>
   length p' = length (fst (snd (snd st))) \<and> length s' = length (snd (snd (snd st)))"
proof (induction c ix iy st rule: layout_row.induct)
  case (1 c ix iy i j positions scales)
  show ?case
  proof (cases "real iy < amountY c")
    case True
    with 1 show ?thesis by (simp add: layout_row.simps [of c ix iy])
  next
    case False
    with 1 show ?thesis by (simp add: layout_row.simps [of c ix iy])
  qed
qed

lemma layout_grid_length:
  "layout_grid c ix st = (i', j', p', s') \<Longrightarrow>
   length p' = length (fst (snd (snd st))) \<and> length s' = length (snd (snd (snd st)))"
proof (induction c ix st rule: layout_grid.induct)
  case (1 c ix st)
  show ?case
  proof (cases "real ix < amountX c")
    case True
    obtain a b p s where r: "layout_row c ix 0 st = (a, b, p, s)"
      by (cases "layout_row c ix 0 st") auto
    from 1 True r show ?thesis
      using layout_row_length [OF r] by (simp add: layout_grid.simps [of c ix])
  next
    case False
    with 1 show ?thesis by (simp add: layout_grid.simps [of c ix])
  qed
qed

lemma laid_out_step:
  assumes "laid_out ny ix iy (i, j, p, s)" and "iy < ny"
  shows "laid_out ny ix (Suc iy) (i + 3, j + 1, put (put (put p i x) (i + 1) 0) (i + 2) z,
           put s j 1)"
proof -
  from assms have j: "j = ix * ny + iy" and i: "i = 3 * j"
    and y: "\<forall>k<length p. k mod 3 = 1 \<longrightarrow> p ! k = F32 0"
    and sc: "\<forall>m<j. m < length s \<longrightarrow> s ! m = F32 1"
    by simp_all
  let ?p = "put (put (put p i x) (i + 1) 0) (i + 2) z"
  have a: "\<forall>k<length ?p. k mod 3 = 1 \<longrightarrow> ?p ! k = F32 0"
  proof (intro allI impI)
    fix k assume k: "k < length ?p" and m: "k mod 3 = 1"
    have "k \<noteq> i" "k \<noteq> i + 2" using i m by presburger+
    with k m y show "?p ! k = F32 0" by (simp add: nth_put)
  qed
  have b: "\<forall>m<j + 1. m < length (put s j 1) \<longrightarrow> put s j 1 ! m = F32 1"
    using sc by (auto simp: nth_put less_Suc_eq)
  show ?thesis
    using a b j i by simp
qed

lemma laid_out_next_row:
  "laid_out ny ix ny st \<Longrightarrow> laid_out ny (Suc ix) 0 st"
  by (cases st) simp

lemma laid_out_start:
  "laid_out ny 0 0 (0, 0, replicate n (F32 0), replicate m (F32 0))"
  by simp

lemma laid_out_final:
  assumes "laid_out ny nx 0 (i, j, p, s)"
  shows "j = nx * ny"
    and "\<And>k. k < length p \<Longrightarrow> k mod 3 = 1 \<Longrightarrow> p ! k = F32 0"
    and "\<And>m. m < j \<Longrightarrow> m < length s \<Longrightarrow> s ! m = F32 1"
  using assms by simp_all

declare laid_out.simps [simp del]

lemma layout_row_laid_out:
  "amountY c = real ny \<Longrightarrow> iy \<le> ny \<Longrightarrow> laid_out ny ix iy st \<Longrightarrow>
   laid_out ny ix ny (layout_row c ix iy st)"
proof (induction c ix iy st rule: layout_row.induct)
  case (1 c ix iy i j positions scales)
  let ?next = "(i + 3, j + 1,
           put (put (put positions i
                  (real ix * separation c - (amountX c * separation c) / 2))
                  (i + 1) 0)
                  (i + 2) (real iy * separation c - (amountY c * separation c) / 2),
           put scales j 1)"
  show ?case
  proof (cases "real iy < amountY c")
    case True
    then have lt: "iy < ny" using "1.prems"(1) by simp
    have step: "laid_out ny ix (Suc iy) ?next"
      using laid_out_step [OF "1.prems"(3) lt] .
    have "laid_out ny ix ny (layout_row c ix (Suc iy) ?next)"
      using "1.IH" [OF True "1.prems"(1) _ step] lt by simp
    moreover have "layout_row c ix iy (i, j, positions, scales) = layout_row c ix (Suc iy) ?next"
      using True by (subst layout_row.simps) simp
    ultimately show ?thesis by simp
  next
    case False
    then have "iy = ny" using "1.prems"(1,2) by simp
    moreover have "layout_row c ix iy (i, j, positions, scales) = (i, j, positions, scales)"
      using False by (subst layout_row.simps) simp
    ultimately show ?thesis using "1.prems"(3) by simp
  qed
qed

lemma layout_grid_laid_out:
  "amountX c = real nx \<Longrightarrow> amountY c = real ny \<Longrightarrow> ix \<le> nx \<Longrightarrow>
   laid_out ny ix 0 st \<Longrightarrow> laid_out ny nx 0 (layout_grid c ix st)"
proof (induction c ix st rule: layout_grid.induct)
  case (1 c ix st)
  show ?case
  proof (cases "real ix < amountX c")
    case True
    then have lt: "ix < nx" using "1.prems"(1) by simp
    have "laid_out ny (Suc ix) 0 (layout_row c ix 0 st)"
      using layout_row_laid_out [OF "1.prems"(2) _ "1.prems"(4)] by (simp add: laid_out_next_row)
    then have "laid_out ny nx 0 (layout_grid c (Suc ix) (layout_row c ix 0 st))"
      using "1.IH" [OF True "1.prems"(1,2)] lt by simp
    moreover have "layout_grid c ix st = layout_grid c (Suc ix) (layout_row c ix 0 st)"
      using True by (subst layout_grid.simps) simp
    ultimately show ?thesis by simp
  next
    case False
    then have "ix = nx" using "1.prems"(1,3) by simp
    moreover have "layout_grid c ix st = st"
      using False by (subst layout_grid.simps) simp
    ultimately show ?thesis using "1.prems"(4) by simp
  qed
qed

subsection \<open>Allocation\<close>

lemma ToIndex_nat:
  "ToIndex (real n) = (if n \<le> 2 ^ 53 - 1 then Inr n else Inl RangeError)"
proof -
  have "(2::int) ^ 53 - 1 = int (2 ^ 53 - 1)"
    by simp
  then have "int n \<le> 2 ^ 53 - 1 \<longleftrightarrow> n \<le> 2 ^ 53 - 1"
    by (simp only: of_nat_le_iff)
  then show ?thesis
    by (auto simp: ToIndex_def Let_def)
qed

lemma Float32Array_nat:
  "Float32Array limit (real n) =
     (if n \<le> min limit (2 ^ 53 - 1) then Inr (replicate n (F32 0)) else Inl RangeError)"
  by (auto simp: Float32Array_def ToIndex_nat)

lemma build_buffers_laid_out:
  assumes "amountX c = real nx" and "amountY c = real ny"
    and "3 * nx * ny \<le> min limit (2 ^ 53 - 1)"
  shows "\<exists>i pos scl. build_buffers limit c = Inr (pos, scl) \<and>
           length pos = 3 * nx * ny \<and> length scl = nx * ny \<and>
           laid_out ny nx 0 (i, nx * ny, pos, scl)"
proof -
  let ?st = "(0, 0, replicate (nx * ny * 3) (F32 0), replicate (nx * ny) (F32 0)) :: cursor"
  have "nx * ny * 3 = 3 * nx * ny" "nx * ny \<le> 3 * nx * ny"
    by simp_all
  with assms(3) have le: "nx * ny * 3 \<le> min limit (2 ^ 53 - 1)"
    "nx * ny \<le> min limit (2 ^ 53 - 1)"
    by (simp_all only: order_trans [of "nx * ny" "3 * nx * ny"])
  have f1: "Float32Array limit (amountX c * amountY c * 3) =
            Inr (replicate (nx * ny * 3) (F32 0))"
    using Float32Array_nat [of limit "nx * ny * 3"] assms(1,2) le(1) by simp
  have f2: "Float32Array limit (amountX c * amountY c) = Inr (replicate (nx * ny) (F32 0))"
    using Float32Array_nat [of limit "nx * ny"] assms(1,2) le(2) by simp
  obtain i j p s where r: "layout_grid c 0 ?st = (i, j, p, s)"
    by (cases "layout_grid c 0 ?st") auto
  have lo: "laid_out ny nx 0 (i, j, p, s)"
    using layout_grid_laid_out [OF assms(1,2) _ laid_out_start [of ny "nx * ny * 3" "nx * ny"]] r
    by simp
  then have j: "j = nx * ny" by (rule laid_out_final(1))
  from layout_grid_length [OF r] have "length p = 3 * nx * ny" "length s = nx * ny"
    by simp_all
  with lo j r f1 f2 show ?thesis
    by (auto simp: build_buffers_def)
qed

lemma build_buffers_too_long:
  assumes "amountX c = real nx" and "amountY c = real ny"
    and "min limit (2 ^ 53 - 1) < 3 * nx * ny"
  shows "build_buffers limit c = Inl RangeError"
proof -
  have "nx * ny * 3 = 3 * nx * ny"
    by simp
  with assms(3) have "\<not> nx * ny * 3 \<le> min limit (2 ^ 53 - 1)"
    by (simp only: not_le)
  then have "Float32Array limit (amountX c * amountY c * 3) = Inl RangeError"
    using Float32Array_nat [of limit "nx * ny * 3"] assms(1,2) by simp
  then show ?thesis
    by (simp add: build_buffers_def)
qed

text \<open>
  C4, as amended.  For whole grid extents \<open>countX\<close> and \<open>countY\<close> of at least 1 whose
  position buffer, of \<open>3 * countX * countY\<close> entries, is no longer than the host
  allocates and than \<open>2 ^ 53 - 1\<close>, the GPU tier builds a position buffer of
  \<open>3 * countX * countY\<close> entries and a scale buffer of \<open>countX * countY\<close> entries; the
  height of every point is 0 and every scale is 1.  For longer buffers the allocation
  throws a \<^verbatim>\<open>RangeError\<close> and no buffer is built.
\<close>

theorem build_buffers_sizes:
  assumes "amountX c = real countX" and "amountY c = real countY"
    and "1 \<le> countX" and "1 \<le> countY"
  shows "(3 * countX * countY \<le> min limit (2 ^ 53 - 1) \<longrightarrow>
            (\<exists>pos scl. build_buffers limit c = Inr (pos, scl) \<and>
               length pos = 3 * countX * countY \<and> length scl = countX * countY \<and>
               (\<forall>k<countX * countY. pos ! (3 * k + 1) = F32 0 \<and> scl ! k = F32 1))) \<and>
         (min limit (2 ^ 53 - 1) < 3 * countX * countY \<longrightarrow>
            build_buffers limit c = Inl RangeError)"
proof (intro conjI impI)
  assume "3 * countX * countY \<le> min limit (2 ^ 53 - 1)"
  from build_buffers_laid_out [OF assms(1,2) this]
  obtain i pos scl where b: "build_buffers limit c = Inr (pos, scl)"
    and lp: "length pos = 3 * countX * countY" and ls: "length scl = countX * countY"
    and lo: "laid_out countY countX 0 (i, countX * countY, pos, scl)"
    by blast
  have "pos ! (3 * k + 1) = F32 0 \<and> scl ! k = F32 1" if "k < countX * countY" for k
  proof
    have "3 * k + 1 < length pos" using that lp by simp
    moreover have "(3 * k + 1) mod 3 = 1" by presburger
    ultimately show "pos ! (3 * k + 1) = F32 0" by (rule laid_out_final(2) [OF lo])
    show "scl ! k = F32 1" using that ls by (intro laid_out_final(3) [OF lo]) simp_all
  qed
  with b lp ls
  show "\<exists>pos scl. build_buffers limit c = Inr (pos, scl) \<and>
               length pos = 3 * countX * countY \<and> length scl = countX * countY \<and>
               (\<forall>k<countX * countY. pos ! (3 * k + 1) = F32 0 \<and> scl ! k = F32 1)"
    by blast
next
  assume "min limit (2 ^ 53 - 1) < 3 * countX * countY"
  with assms(1,2) show "build_buffers limit c = Inl RangeError"
    by (rule build_buffers_too_long)
qed

lemma waves_numeric:
  "numeric waves =
     Some \<lparr>separation = 80, amountX = 60, amountY = 40, waveHeight = 30, waveSpeed = 0.05\<rparr>"
  by (simp add: numeric_def waves_def)

theorem build_buffers_sizes_witness:
  "\<exists>pos scl. build_buffers (2 ^ 32) \<lparr>separation = 80, amountX = 60, amountY = 40,
                 waveHeight = 30, waveSpeed = 0.05\<rparr> = Inr (pos, scl) \<and>
     length pos = 7200 \<and> length scl = 2400 \<and> pos ! 1 = F32 0 \<and> scl ! 0 = F32 1"
proof -
  let ?c = "\<lparr>separation = 80, amountX = 60, amountY = 40, waveHeight = 30, waveSpeed = 0.05\<rparr>"
  have "amountX ?c = real 60" "amountY ?c = real 40" "1 \<le> (60::nat)" "1 \<le> (40::nat)"
    by simp_all
  from build_buffers_sizes [OF this, of "2 ^ 32"]
  obtain pos scl where "build_buffers (2 ^ 32) ?c = Inr (pos, scl)"
    and "length pos = 3 * 60 * 40" and "length scl = 60 * 40"
    and a: "\<forall>k<60 * 40. pos ! (3 * k + 1) = F32 0 \<and> scl ! k = F32 1"
    by auto
  moreover from a [rule_format, of 0] have "pos ! 1 = F32 0 \<and> scl ! 0 = F32 1" by simp
  ultimately show ?thesis by simp
qed

text \<open>
  C4 as stated fails for large extents: a grid of \<open>10 ^ 8\<close> by \<open>10 ^ 8\<close> points asks for
  a position buffer of \<open>3 * 10 ^ 16\<close> entries, more than \<open>2 ^ 53 - 1\<close>, so on every host
  \<^verbatim>\<open>new Float32Array\<close> throws a \<^verbatim>\<open>RangeError\<close> and the GPU tier builds no buffer.
\<close>

theorem build_buffers_counterexample:
  "\<forall>limit. build_buffers limit \<lparr>separation = 80, amountX = 100000000, amountY = 100000000,
                 waveHeight = 30, waveSpeed = 0.05\<rparr> = Inl RangeError"
  by (simp add: build_buffers_def Float32Array_def ToIndex_def)

subsection \<open>The wave update writes heights and scales only\<close>

lemma wave_row_xz:
  "wave_row c t ix iy st = (i', j', p', s') \<Longrightarrow> fst st mod 3 = 0 \<Longrightarrow>
   i' mod 3 = 0 \<and> length p' = length (fst (snd (snd st))) \<and>
   length s' = length (snd (snd (snd st))) \<and>
   (\<forall>k. k mod 3 \<noteq> 1 \<longrightarrow> p' ! k = fst (snd (snd st)) ! k)"
proof (induction c t ix iy st rule: wave_row.induct)
  case (1 c count ix iy i j pos scl)
  show ?case
  proof (cases "real iy < amountY c")
    case True
    let ?pos = "put pos (i + 1)
             (sin ((real ix + count) * 0.3) * waveHeight c +
              sin ((real iy + count) * 0.5) * waveHeight c)"
    let ?scl = "put scl j
             ((sin ((real ix + count) * 0.3) + 1) * 8 +
              (sin ((real iy + count) * 0.5) + 1) * 8)"
    have u: "wave_row c count ix iy (i, j, pos, scl) =
             wave_row c count ix (Suc iy) (i + 3, j + 1, ?pos, ?scl)"
      using True by (subst wave_row.simps) simp
    have m: "i mod 3 = 0" using "1.prems"(2) by simp
    then have m3: "fst (i + 3, j + 1, ?pos, ?scl) mod 3 = 0" by simp
    from "1.IH" [OF True _ m3] "1.prems"(1) u
    have ih: "i' mod 3 = 0 \<and> length p' = length ?pos \<and> length s' = length ?scl \<and>
              (\<forall>k. k mod 3 \<noteq> 1 \<longrightarrow> p' ! k = ?pos ! k)"
      by simp
    have "?pos ! k = pos ! k" if "k mod 3 \<noteq> 1" for k
    proof -
      have "k \<noteq> i + 1" using that m by presburger
      then show ?thesis by (simp add: put_def)
    qed
    with ih show ?thesis by simp
  next
    case False
    have "wave_row c count ix iy (i, j, pos, scl) = (i, j, pos, scl)"
      using False by (subst wave_row.simps) simp
    with "1.prems" show ?thesis by simp
  qed
qed

lemma wave_grid_xz:
  "wave_grid c t ix st = (i', j', p', s') \<Longrightarrow> fst st mod 3 = 0 \<Longrightarrow>
   i' mod 3 = 0 \<and> length p' = length (fst (snd (snd st))) \<and>
   length s' = length (snd (snd (snd st))) \<and>
   (\<forall>k. k mod 3 \<noteq> 1 \<longrightarrow> p' ! k = fst (snd (snd st)) ! k)"
proof (induction c t ix st rule: wave_grid.induct)
  case (1 c count ix st)
  show ?case
  proof (cases "real ix < amountX c")
    case True
    obtain a b p s where r: "wave_row c count ix 0 st = (a, b, p, s)"
      by (cases "wave_row c count ix 0 st") auto
    have u: "wave_grid c count ix st = wave_grid c count (Suc ix) (a, b, p, s)"
      using True r by (subst wave_grid.simps) simp
    from wave_row_xz [OF r "1.prems"(2)]
    have row: "a mod 3 = 0" "length p = length (fst (snd (snd st)))"
      "\<forall>k. k mod 3 \<noteq> 1 \<longrightarrow> p ! k = fst (snd (snd st)) ! k"
      "length s = length (snd (snd (snd st)))"
      by simp_all
    from "1.IH" [OF True] r "1.prems"(1) u row(1)
    have "i' mod 3 = 0 \<and> length p' = length p \<and> length s' = length s \<and>
          (\<forall>k. k mod 3 \<noteq> 1 \<longrightarrow> p' ! k = p ! k)"
      by simp
    with row show ?thesis by simp
  next
    case False
    have "wave_grid c count ix st = st"
      using False by (subst wave_grid.simps) simp
    with "1.prems" show ?thesis by auto
  qed
qed

lemma wave_update_xz:
  "length (fst (wave_update c t b)) = length (fst b) \<and>
   length (snd (wave_update c t b)) = length (snd b) \<and>
   (\<forall>k. k mod 3 \<noteq> 1 \<longrightarrow> fst (wave_update c t b) ! k = fst b ! k)"
proof -
  obtain i j p s where r: "wave_grid c t 0 (0, 0, fst b, snd b) = (i, j, p, s)"
    by (cases "wave_grid c t 0 (0, 0, fst b, snd b)") auto
  from wave_grid_xz [OF r] r show ?thesis
    by (simp add: wave_update_def)
qed

lemma animate_frames_xz:
  "k mod 3 \<noteq> 1 \<Longrightarrow> fst (snd (animate_frames n c (t, b))) ! k = fst b ! k"
proof (induction n arbitrary: t b)
  case 0
  then show ?case by simp
next
  case (Suc n)
  from Suc.IH [OF Suc.prems, of "t + waveSpeed c" "wave_update c t b"]
  show ?case using wave_update_xz [of c t b] Suc.prems by simp
qed

subsection \<open>A pass of the wave update is a fixed sequence of stores\<close>

lemma writes_Nil [simp]: "writes [] a = a"
  by (simp add: writes_def)

lemma writes_Cons [simp]: "writes (w # W) a = writes W (put a (fst w) (snd w))"
  by (simp add: writes_def)

lemma writes_append: "writes (V @ W) a = writes W (writes V a)"
  by (simp add: writes_def)

lemma writes_length [simp]: "length (writes W a) = length a"
  by (induction W arbitrary: a) simp_all

lemma writes_nth:
  "k < length a \<Longrightarrow>
   writes W a ! k = (case map_of (rev W) k of None \<Rightarrow> a ! k | Some v \<Rightarrow> fround v)"
proof (induction W arbitrary: a)
  case Nil
  then show ?case by simp
next
  case (Cons w W)
  obtain i v where w: "w = (i, v)" by (cases w)
  from Cons.prems have "k < length (put a i v)" by simp
  from Cons.IH [OF this] Cons.prems w show ?case
    by (simp add: nth_put map_add_def split: option.splits)
qed

lemma writes_idem: "writes W (writes W a) = writes W a"
  by (rule nth_equalityI) (simp_all add: writes_nth split: option.splits)

lemma wave_row_writes:
  "\<exists>i' j' Wp Ws. \<forall>p s.
     wave_row c t ix iy (fst (st :: cursor), fst (snd st), p, s) =
       (i', j', writes Wp p, writes Ws s)"
proof (induction c t ix iy st rule: wave_row.induct)
  case (1 c count ix iy i j pos scl)
  show ?case
  proof (cases "real iy < amountY c")
    case True
    let ?y = "sin ((real ix + count) * 0.3) * waveHeight c +
              sin ((real iy + count) * 0.5) * waveHeight c"
    let ?z = "(sin ((real ix + count) * 0.3) + 1) * 8 +
              (sin ((real iy + count) * 0.5) + 1) * 8"
    from "1.IH" [OF True] obtain i' j' Wp Ws where
      ih: "\<And>p s. wave_row c count ix (Suc iy) (i + 3, j + 1, p, s) =
                   (i', j', writes Wp p, writes Ws s)"
      by auto
    have "wave_row c count ix iy (i, j, p, s) =
          (i', j', writes ((i + 1, ?y) # Wp) p, writes ((j, ?z) # Ws) s)" for p s
      using True ih by (subst wave_row.simps) simp
    then show ?thesis unfolding fst_conv snd_conv by blast
  next
    case False
    have "wave_row c count ix iy (i, j, p, s) = (i, j, writes [] p, writes [] s)" for p s
      using False by (subst wave_row.simps) simp
    then show ?thesis unfolding fst_conv snd_conv by blast
  qed
qed

lemma wave_grid_writes:
  "\<exists>i' j' Wp Ws. \<forall>p s.
     wave_grid c t ix (fst (st :: cursor), fst (snd st), p, s) =
       (i', j', writes Wp p, writes Ws s)"
proof (induction c t ix st rule: wave_grid.induct)
  case (1 c count ix st)
  show ?case
  proof (cases "real ix < amountX c")
    case True
    from wave_row_writes [of c count ix 0 st] obtain i1 j1 V1 V2 where
      row: "\<And>p s. wave_row c count ix 0 (fst st, fst (snd st), p, s) =
                   (i1, j1, writes V1 p, writes V2 s)"
      by auto
    have st: "wave_row c count ix 0 st = (i1, j1, writes V1 (fst (snd (snd st))), writes V2 (snd (snd (snd st))))"
      using row [of "fst (snd (snd st))" "snd (snd (snd st))"] by simp
    from "1.IH" [OF True] st obtain i' j' Wp Ws where
      ih: "\<And>p s. wave_grid c count (Suc ix) (i1, j1, p, s) = (i', j', writes Wp p, writes Ws s)"
      by auto
    have "wave_grid c count ix (fst st, fst (snd st), p, s) =
          (i', j', writes (V1 @ Wp) p, writes (V2 @ Ws) s)" for p s
      using True ih row by (subst wave_grid.simps) (simp add: writes_append)
    then show ?thesis unfolding fst_conv snd_conv by blast
  next
    case False
    have "wave_grid c count ix (fst st, fst (snd st), p, s) = (fst st, fst (snd st), writes [] p, writes [] s)" for p s
      using False by (subst wave_grid.simps) simp
    then show ?thesis unfolding fst_conv snd_conv by blast
  qed
qed

lemma wave_update_twice: "wave_update c t (wave_update c t b) = wave_update c t b"
proof -
  from wave_grid_writes [of c t 0 "(0, 0, [], [])"] obtain i' j' Wp Ws where
    w: "\<And>p s. wave_grid c t 0 (0, 0, p, s) = (i', j', writes Wp p, writes Ws s)"
    by auto
  have u: "wave_update c t x = (writes Wp (fst x), writes Ws (snd x))" for x
    by (cases x) (simp add: wave_update_def w)
  show ?thesis
    by (simp add: u writes_idem)
qed

subsection \<open>What a pass of the wave update stores\<close>

lemma waved_step:
  assumes "waved c t ny ix iy (i, j, p, s)" and "iy < ny"
  shows "waved c t ny ix (Suc iy)
           (i + 3, j + 1,
            put p (i + 1)
              (sin ((real ix + t) * 0.3) * waveHeight c +
               sin ((real iy + t) * 0.5) * waveHeight c),
            put s j
              ((sin ((real ix + t) * 0.3) + 1) * 8 +
               (sin ((real iy + t) * 0.5) + 1) * 8))"
proof -
  let ?y = "\<lambda>m. fround (sin ((real (m div ny) + t) * 0.3) * waveHeight c +
                        sin ((real (m mod ny) + t) * 0.5) * waveHeight c)"
  let ?z = "\<lambda>m. fround ((sin ((real (m div ny) + t) * 0.3) + 1) * 8 +
                        (sin ((real (m mod ny) + t) * 0.5) + 1) * 8)"
  let ?p = "put p (i + 1)
              (sin ((real ix + t) * 0.3) * waveHeight c +
               sin ((real iy + t) * 0.5) * waveHeight c)"
  let ?s = "put s j
              ((sin ((real ix + t) * 0.3) + 1) * 8 +
               (sin ((real iy + t) * 0.5) + 1) * 8)"
  from assms have j: "j = ix * ny + iy" and i: "i = 3 * j"
    and y: "\<forall>m<j. 3 * m + 1 < length p \<longrightarrow> p ! (3 * m + 1) = ?y m"
    and z: "\<forall>m<j. m < length s \<longrightarrow> s ! m = ?z m"
    by simp_all
  have jdiv: "j div ny = ix" and jmod: "j mod ny = iy"
    using j assms(2) by simp_all
  have a: "\<forall>m<j + 1. 3 * m + 1 < length ?p \<longrightarrow> ?p ! (3 * m + 1) = ?y m"
  proof (intro allI impI)
    fix m assume m: "m < j + 1" and l: "3 * m + 1 < length ?p"
    show "?p ! (3 * m + 1) = ?y m"
    proof (cases "m = j")
      case True
      with l i jdiv jmod show ?thesis by (simp add: nth_put)
    next
      case False
      with m have mj: "m < j" by simp
      then have "3 * m + 1 \<noteq> i + 1" using i by simp
      with l y mj show ?thesis by (simp add: nth_put)
    qed
  qed
  have b: "\<forall>m<j + 1. m < length ?s \<longrightarrow> ?s ! m = ?z m"
  proof (intro allI impI)
    fix m assume m: "m < j + 1" and l: "m < length ?s"
    show "?s ! m = ?z m"
    proof (cases "m = j")
      case True
      with l jdiv jmod show ?thesis by (simp add: nth_put)
    next
      case False
      with m have "m < j" by simp
      with l z False show ?thesis by (simp add: nth_put)
    qed
  qed
  show ?thesis
    using a b j i by simp
qed

lemma waved_next_row: "waved c t ny ix ny st \<Longrightarrow> waved c t ny (Suc ix) 0 st"
  by (cases st) simp

lemma waved_start: "waved c t ny 0 0 (0, 0, p, s)"
  by simp

lemma waved_final:
  assumes "waved c t ny nx 0 (i, j, p, s)"
  shows "j = nx * ny"
    and "\<And>m. m < j \<Longrightarrow> 3 * m + 1 < length p \<Longrightarrow>
           p ! (3 * m + 1) =
             fround (sin ((real (m div ny) + t) * 0.3) * waveHeight c +
                     sin ((real (m mod ny) + t) * 0.5) * waveHeight c)"
    and "\<And>m. m < j \<Longrightarrow> m < length s \<Longrightarrow>
           s ! m =
             fround ((sin ((real (m div ny) + t) * 0.3) + 1) * 8 +
                     (sin ((real (m mod ny) + t) * 0.5) + 1) * 8)"
  using assms by simp_all

declare waved.simps [simp del]

lemma wave_row_waved:
  "ny = nat \<lceil>amountY c\<rceil> \<Longrightarrow> iy \<le> ny \<Longrightarrow> waved c t ny ix iy st \<Longrightarrow>
   waved c t ny ix ny (wave_row c t ix iy st)"
proof (induction c t ix iy st rule: wave_row.induct)
  case (1 c count ix iy i j pos scl)
  let ?next = "(i + 3, j + 1,
           put pos (i + 1)
             (sin ((real ix + count) * 0.3) * waveHeight c +
              sin ((real iy + count) * 0.5) * waveHeight c),
           put scl j
             ((sin ((real ix + count) * 0.3) + 1) * 8 +
              (sin ((real iy + count) * 0.5) + 1) * 8))"
  show ?case
  proof (cases "real iy < amountY c")
    case True
    then have lt: "iy < ny" using "1.prems"(1) by (simp add: less_ceiling)
    have step: "waved c count ny ix (Suc iy) ?next"
      using waved_step [OF "1.prems"(3) lt] .
    have "waved c count ny ix ny (wave_row c count ix (Suc iy) ?next)"
      using "1.IH" [OF True "1.prems"(1) _ step] lt by simp
    moreover have "wave_row c count ix iy (i, j, pos, scl) = wave_row c count ix (Suc iy) ?next"
      using True by (subst wave_row.simps) simp
    ultimately show ?thesis by simp
  next
    case False
    then have "\<not> iy < ny" using "1.prems"(1) by (simp add: less_ceiling)
    then have "iy = ny" using "1.prems"(2) by simp
    moreover have "wave_row c count ix iy (i, j, pos, scl) = (i, j, pos, scl)"
      using False by (subst wave_row.simps) simp
    ultimately show ?thesis using "1.prems"(3) by simp
  qed
qed

lemma wave_grid_waved:
  "nx = nat \<lceil>amountX c\<rceil> \<Longrightarrow> ny = nat \<lceil>amountY c\<rceil> \<Longrightarrow> ix \<le> nx \<Longrightarrow>
   waved c t ny ix 0 st \<Longrightarrow> waved c t ny nx 0 (wave_grid c t ix st)"
proof (induction c t ix st rule: wave_grid.induct)
  case (1 c count ix st)
  show ?case
  proof (cases "real ix < amountX c")
    case True
    then have lt: "ix < nx" using "1.prems"(1) by (simp add: less_ceiling)
    have "waved c count ny (Suc ix) 0 (wave_row c count ix 0 st)"
      using wave_row_waved [OF "1.prems"(2) _ "1.prems"(4)] by (simp add: waved_next_row)
    then have "waved c count ny nx 0 (wave_grid c count (Suc ix) (wave_row c count ix 0 st))"
      using "1.IH" [OF True "1.prems"(1,2)] lt by simp
    moreover have "wave_grid c count ix st = wave_grid c count (Suc ix) (wave_row c count ix 0 st)"
      using True by (subst wave_grid.simps) simp
    ultimately show ?thesis by simp
  next
    case False
    then have "\<not> ix < nx" using "1.prems"(1) by (simp add: less_ceiling)
    then have "ix = nx" using "1.prems"(3) by simp
    moreover have "wave_grid c count ix st = st"
      using False by (subst wave_grid.simps) simp
    ultimately show ?thesis using "1.prems"(4) by simp
  qed
qed

text \<open>
  After a pass at time cursor \<open>t\<close> the height and the scale of the point in column
  \<open>j div ny\<close> and row \<open>j mod ny\<close> are the two sums of sines of lines 451 to 454, rounded
  by the store, whatever the buffers held before.
\<close>

lemma wave_update_cells:
  assumes "j < nat \<lceil>amountX c\<rceil> * nat \<lceil>amountY c\<rceil>"
  shows "3 * j + 1 < length (fst b) \<Longrightarrow>
         fst (wave_update c t b) ! (3 * j + 1) =
           fround (sin ((real (j div nat \<lceil>amountY c\<rceil>) + t) * 0.3) * waveHeight c +
                   sin ((real (j mod nat \<lceil>amountY c\<rceil>) + t) * 0.5) * waveHeight c)"
    and "j < length (snd b) \<Longrightarrow>
         snd (wave_update c t b) ! j =
           fround ((sin ((real (j div nat \<lceil>amountY c\<rceil>) + t) * 0.3) + 1) * 8 +
                   (sin ((real (j mod nat \<lceil>amountY c\<rceil>) + t) * 0.5) + 1) * 8)"
proof -
  let ?nx = "nat \<lceil>amountX c\<rceil>" and ?ny = "nat \<lceil>amountY c\<rceil>"
  obtain i' j' p s where r: "wave_grid c t 0 (0, 0, fst b, snd b) = (i', j', p, s)"
    by (cases "wave_grid c t 0 (0, 0, fst b, snd b)") auto
  have w: "waved c t ?ny ?nx 0 (i', j', p, s)"
    using wave_grid_waved [OF refl refl _ waved_start [of c t ?ny "fst b" "snd b"]] r
    by simp
  have u: "wave_update c t b = (p, s)"
    using r by (simp add: wave_update_def)
  have l: "length p = length (fst b)" "length s = length (snd b)"
    using wave_update_xz [of c t b] u by simp_all
  have j': "j < j'" using waved_final(1) [OF w] assms by simp
  show "fst (wave_update c t b) ! (3 * j + 1) =
           fround (sin ((real (j div ?ny) + t) * 0.3) * waveHeight c +
                   sin ((real (j mod ?ny) + t) * 0.5) * waveHeight c)"
    if "3 * j + 1 < length (fst b)"
    using waved_final(2) [OF w j'] that l u by simp
  show "snd (wave_update c t b) ! j =
           fround ((sin ((real (j div ?ny) + t) * 0.3) + 1) * 8 +
                   (sin ((real (j mod ?ny) + t) * 0.5) + 1) * 8)"
    if "j < length (snd b)"
    using waved_final(3) [OF w j'] that l u by simp
qed

text \<open>
  C5.  For every configuration and every time cursor, what a pass of the wave update
  leaves as the height and as the scale of a point of the grid does not depend on what
  the buffers held: two passes at the same time cursor over buffers of the same lengths
  and of any contents agree on the height and the scale of every point.  Hence they
  are functions of the column, the row and the time cursor, and a second pass at the
  same time cursor changes nothing.
\<close>

theorem wave_update_pure:
  assumes "length (fst b) = length (fst b')" and "length (snd b) = length (snd b')"
  shows "(\<forall>j<nat \<lceil>amountX c\<rceil> * nat \<lceil>amountY c\<rceil>.
            (3 * j + 1 < length (fst b) \<longrightarrow>
               fst (wave_update c t b) ! (3 * j + 1) = fst (wave_update c t b') ! (3 * j + 1)) \<and>
            (j < length (snd b) \<longrightarrow>
               snd (wave_update c t b) ! j = snd (wave_update c t b') ! j)) \<and>
         wave_update c t (wave_update c t b) = wave_update c t b"
proof (intro conjI allI impI)
  fix j assume j: "j < nat \<lceil>amountX c\<rceil> * nat \<lceil>amountY c\<rceil>"
  show "fst (wave_update c t b) ! (3 * j + 1) = fst (wave_update c t b') ! (3 * j + 1)"
    if "3 * j + 1 < length (fst b)"
    using wave_update_cells(1) [OF j, of b t] wave_update_cells(1) [OF j, of b' t] that assms(1)
    by simp
  show "snd (wave_update c t b) ! j = snd (wave_update c t b') ! j"
    if "j < length (snd b)"
    using wave_update_cells(2) [OF j, of b t] wave_update_cells(2) [OF j, of b' t] that assms(2)
    by simp
next
  show "wave_update c t (wave_update c t b) = wave_update c t b"
    by (rule wave_update_twice)
qed

theorem wave_update_pure_witness:
  "fst (wave_update \<lparr>separation = 10, amountX = 2, amountY = 2, waveHeight = 30,
                     waveSpeed = 0.05\<rparr> 0
          (replicate 12 (F32 0), replicate 4 (F32 1))) ! 1 =
   fst (wave_update \<lparr>separation = 10, amountX = 2, amountY = 2, waveHeight = 30,
                     waveSpeed = 0.05\<rparr> 0
          (replicate 12 (F32 7), replicate 4 PlusInfinity)) ! 1 \<and>
   snd (wave_update \<lparr>separation = 10, amountX = 2, amountY = 2, waveHeight = 30,
                     waveSpeed = 0.05\<rparr> 0
          (replicate 12 (F32 0), replicate 4 (F32 1))) ! 3 =
   snd (wave_update \<lparr>separation = 10, amountX = 2, amountY = 2, waveHeight = 30,
                     waveSpeed = 0.05\<rparr> 0
          (replicate 12 (F32 7), replicate 4 PlusInfinity)) ! 3"
proof -
  let ?c = "\<lparr>separation = 10, amountX = 2, amountY = 2, waveHeight = 30, waveSpeed = 0.05\<rparr>"
  let ?b = "(replicate 12 (F32 0), replicate 4 (F32 1))"
  let ?b' = "(replicate 12 (F32 7), replicate 4 PlusInfinity)"
  have l: "length (fst ?b) = length (fst ?b')" "length (snd ?b) = length (snd ?b')"
    by simp_all
  have n: "nat \<lceil>amountX ?c\<rceil> * nat \<lceil>amountY ?c\<rceil> = 4"
    by simp
  from wave_update_pure [OF l, where c = ?c and t = 0]
  have a: "\<forall>j<4. (3 * j + 1 < length (fst ?b) \<longrightarrow>
               fst (wave_update ?c 0 ?b) ! (3 * j + 1) = fst (wave_update ?c 0 ?b') ! (3 * j + 1)) \<and>
            (j < length (snd ?b) \<longrightarrow>
               snd (wave_update ?c 0 ?b) ! j = snd (wave_update ?c 0 ?b') ! j)"
    unfolding n by blast
  from a [rule_format, of 0] a [rule_format, of 3] show ?thesis
    by simp
qed

subsection \<open>The elements of the DOM tier\<close>

lemma css3d_row_length:
  "length (css3d_row aX aY sep ix iy objs) = length objs + (nat \<lceil>aY\<rceil> - iy)"
proof (induction aX aY sep ix iy objs rule: css3d_row.induct)
  case (1 aX aY sep ix iy objs)
  show ?case
  proof (cases "real iy < aY")
    case True
    then have "iy < nat \<lceil>aY\<rceil>" by linarith
    with "1.IH" [OF True] True show ?thesis
      by (subst css3d_row.simps) simp
  next
    case False
    then have "nat \<lceil>aY\<rceil> \<le> iy" by linarith
    with False show ?thesis
      by (subst css3d_row.simps) simp
  qed
qed

lemma css3d_grid_length:
  "length (css3d_grid aX aY sep ix objs) = length objs + (nat \<lceil>aX\<rceil> - ix) * nat \<lceil>aY\<rceil>"
proof (induction aX aY sep ix objs rule: css3d_grid.induct)
  case (1 aX aY sep ix objs)
  show ?case
  proof (cases "real ix < aX")
    case True
    then have "ix < nat \<lceil>aX\<rceil>" by linarith
    then have "nat \<lceil>aX\<rceil> - ix = Suc (nat \<lceil>aX\<rceil> - Suc ix)" by simp
    with "1.IH" [OF True] True show ?thesis
      by (subst css3d_grid.simps) (simp add: css3d_row_length)
  next
    case False
    then have "nat \<lceil>aX\<rceil> \<le> ix" by linarith
    with False show ?thesis
      by (subst css3d_grid.simps) simp
  qed
qed

lemma css3d_row_placed:
  "real ix < aX \<Longrightarrow> list_all (placed aX aY sep) objs \<Longrightarrow>
   list_all (placed aX aY sep) (css3d_row aX aY sep ix iy objs)"
proof (induction aX aY sep ix iy objs rule: css3d_row.induct)
  case (1 aX aY sep ix iy objs)
  show ?case
  proof (cases "real iy < aY")
    case True
    let ?obj = "\<lparr>position_x = real ix * sep - (aX * sep) / 2,
             position_y = 0,
             position_z = real iy * sep - (aY * sep) / 2,
             userData = (ix, iy)\<rparr>"
    have "placed aX aY sep ?obj"
      using True "1.prems"(1) by (simp add: placed_def)
    with "1.prems"(2) have "list_all (placed aX aY sep) (objs @ [?obj])" by simp
    from "1.IH" [OF True "1.prems"(1) this] True show ?thesis
      by (subst css3d_row.simps) simp
  next
    case False
    with "1.prems" show ?thesis
      by (subst css3d_row.simps) simp
  qed
qed

lemma css3d_grid_placed:
  "list_all (placed aX aY sep) objs \<Longrightarrow>
   list_all (placed aX aY sep) (css3d_grid aX aY sep ix objs)"
proof (induction aX aY sep ix objs rule: css3d_grid.induct)
  case (1 aX aY sep ix objs)
  show ?case
  proof (cases "real ix < aX")
    case True
    with "1.IH" [OF True] css3d_row_placed [OF True "1.prems"] show ?thesis
      by (subst css3d_grid.simps) simp
  next
    case False
    with "1.prems" show ?thesis
      by (subst css3d_grid.simps) simp
  qed
qed

subsection \<open>Frames, and the footprint of the reduced grid\<close>

lemma animate_frames_length:
  "length (fst (snd (animate_frames n c (t, b)))) = length (fst b)"
proof (induction n arbitrary: t b)
  case 0
  then show ?case by simp
next
  case (Suc n)
  from Suc.IH [of "t + waveSpeed c" "wave_update c t b"]
  show ?case using wave_update_xz [of c t b] by simp
qed

text \<open>
  C6.  Through any number of frames of the GPU tier's loop the position buffer keeps its
  length and every entry that is not a height (index \<open>i + 1\<close> of a point) keeps its
  value: the x and the z of every point stay what the layout stored at construction.
  The frames store heights and scales only.
\<close>

theorem frames_keep_x_and_z:
  "(\<forall>k. k mod 3 \<noteq> 1 \<longrightarrow> fst (snd (animate_frames n c (t, b))) ! k = fst b ! k) \<and>
   length (fst (snd (animate_frames n c (t, b)))) = length (fst b)"
proof (intro conjI impI allI)
  fix k :: nat assume "k mod 3 \<noteq> 1"
  then show "fst (snd (animate_frames n c (t, b))) ! k = fst b ! k"
    by (rule animate_frames_xz)
next
  show "length (fst (snd (animate_frames n c (t, b)))) = length (fst b)"
    by (rule animate_frames_length)
qed

lemma layout_2x2:
  "layout_grid \<lparr>separation = 10, amountX = 2, amountY = 2, waveHeight = 30, waveSpeed = 0.05\<rparr>
     0 (0, 0, replicate 12 (F32 0), replicate 4 (F32 0)) =
   (12, 4,
    [F32 (- 10), F32 0, F32 (- 10), F32 (- 10), F32 0, F32 0,
     F32 0, F32 0, F32 (- 10), F32 0, F32 0, F32 0],
    [F32 1, F32 1, F32 1, F32 1])"
  by (simp add: layout_grid.simps layout_row.simps put_def eval_nat_numeral fround_examples)

lemma build_2x2:
  "build_buffers (2 ^ 32) \<lparr>separation = 10, amountX = 2, amountY = 2, waveHeight = 30,
                  waveSpeed = 0.05\<rparr> =
     Inr ([F32 (- 10), F32 0, F32 (- 10), F32 (- 10), F32 0, F32 0,
           F32 0, F32 0, F32 (- 10), F32 0, F32 0, F32 0],
          [F32 1, F32 1, F32 1, F32 1])"
proof -
  have "Float32Array (2 ^ 32) 12 = Inr (replicate 12 (F32 0))"
    "Float32Array (2 ^ 32) 4 = Inr (replicate 4 (F32 0))"
    by (simp_all add: Float32Array_def ToIndex_def)
  with layout_2x2 show ?thesis
    by (simp add: build_buffers_def)
qed

theorem frames_keep_x_and_z_witness:
  "build_buffers (2 ^ 32) \<lparr>separation = 10, amountX = 2, amountY = 2, waveHeight = 30,
                  waveSpeed = 0.05\<rparr> =
     Inr ([F32 (- 10), F32 0, F32 (- 10), F32 (- 10), F32 0, F32 0,
           F32 0, F32 0, F32 (- 10), F32 0, F32 0, F32 0],
          [F32 1, F32 1, F32 1, F32 1]) \<and>
   fst (snd (animate_frames 7
     \<lparr>separation = 10, amountX = 2, amountY = 2, waveHeight = 30, waveSpeed = 0.05\<rparr>
     (0, [F32 (- 10), F32 0, F32 (- 10), F32 (- 10), F32 0, F32 0,
          F32 0, F32 0, F32 (- 10), F32 0, F32 0, F32 0],
         [F32 1, F32 1, F32 1, F32 1]))) ! 3 = F32 (- 10)"
proof -
  let ?c = "\<lparr>separation = 10, amountX = 2, amountY = 2, waveHeight = 30, waveSpeed = 0.05\<rparr>"
  let ?b = "([F32 (- 10), F32 0, F32 (- 10), F32 (- 10), F32 0, F32 0,
              F32 0, F32 0, F32 (- 10), F32 0, F32 0, F32 0],
             [F32 1, F32 1, F32 1, F32 1]) :: float32 list \<times> float32 list"
  have "(3::nat) mod 3 \<noteq> 1" by simp
  with frames_keep_x_and_z [of 7 ?c 0 ?b]
  have "fst (snd (animate_frames 7 ?c (0, ?b))) ! 3 = fst ?b ! 3"
    by blast
  then show ?thesis using build_2x2 by simp
qed

lemma min_extent_iff:
  fixes a s :: real
  assumes "0 < a" and "s \<noteq> 0" and "0 < cap"
  shows "min a cap * (s * 1.5) = a * s \<longleftrightarrow> a = cap * 1.5"
proof (cases "a \<le> cap")
  case True
  then have "min a cap * (s * 1.5) = a * s \<longleftrightarrow> a * s * 1.5 = a * s" by (simp add: min_def)
  also have "\<dots> \<longleftrightarrow> False" using assms by simp
  finally show ?thesis using True assms by auto
next
  case False
  then have "min a cap * (s * 1.5) = a * s \<longleftrightarrow> (cap * 1.5) * s = a * s"
    by (simp add: min_def algebra_simps)
  also have "\<dots> \<longleftrightarrow> cap * 1.5 = a" using assms(2) by simp
  finally show ?thesis by auto
qed

text \<open>
  C7, as amended.  The DOM tier creates one element per point of a grid capped at 20 by
  15, so at most 300 elements, spaced by 1.5 times the configured separation.  Its
  extent is the capped count times the widened spacing on each axis; for a positive
  count and a separation other than 0 that is the extent of the GPU grid only when
  \<^verbatim>\<open>amountX\<close> is 30, and on the other axis only when \<^verbatim>\<open>amountY\<close> is 22.5.
\<close>

theorem css3d_reduced_grid:
  "length (css3d_particles c) = nat \<lceil>min (amountX c) 20\<rceil> * nat \<lceil>min (amountY c) 15\<rceil> \<and>
   length (css3d_particles c) \<le> 20 * 15 \<and>
   css3d_separation c = separation c * 1.5 \<and>
   list_all (placed (min (amountX c) 20) (min (amountY c) 15) (separation c * 1.5))
     (css3d_particles c) \<and>
   css3d_extent c =
     (min (amountX c) 20 * (separation c * 1.5), min (amountY c) 15 * (separation c * 1.5)) \<and>
   (0 < amountX c \<and> separation c \<noteq> 0 \<longrightarrow>
      (fst (css3d_extent c) = fst (gpu_extent c) \<longleftrightarrow> amountX c = 30)) \<and>
   (0 < amountY c \<and> separation c \<noteq> 0 \<longrightarrow>
      (snd (css3d_extent c) = snd (gpu_extent c) \<longleftrightarrow> amountY c = 22.5))"
proof -
  have len: "length (css3d_particles c) =
             nat \<lceil>min (amountX c) 20\<rceil> * nat \<lceil>min (amountY c) 15\<rceil>"
    by (simp add: css3d_particles_def css3d_grid_length css3d_amountX_def css3d_amountY_def)
  have "\<lceil>min (amountX c) 20\<rceil> \<le> 20" by (simp add: ceiling_le_iff)
  then have x: "nat \<lceil>min (amountX c) 20\<rceil> \<le> 20" by simp
  have "\<lceil>min (amountY c) 15\<rceil> \<le> 15" by (simp add: ceiling_le_iff)
  then have y: "nat \<lceil>min (amountY c) 15\<rceil> \<le> 15" by simp
  have bound: "length (css3d_particles c) \<le> 20 * 15"
    unfolding len using x y by (rule mult_le_mono)
  have pl: "list_all (placed (min (amountX c) 20) (min (amountY c) 15) (separation c * 1.5))
     (css3d_particles c)"
    using css3d_grid_placed [of "min (amountX c) 20" "min (amountY c) 15" "separation c * 1.5" "[]" 0]
    by (simp add: css3d_particles_def css3d_amountX_def css3d_amountY_def css3d_separation_def)
  have ex: "css3d_extent c =
     (min (amountX c) 20 * (separation c * 1.5), min (amountY c) 15 * (separation c * 1.5))"
    by (simp add: css3d_extent_def css3d_amountX_def css3d_amountY_def css3d_separation_def)
  have fx: "fst (css3d_extent c) = fst (gpu_extent c) \<longleftrightarrow> amountX c = 30"
    if "0 < amountX c \<and> separation c \<noteq> 0"
    using min_extent_iff [of "amountX c" "separation c" 20] that
    by (simp add: ex gpu_extent_def)
  have fz: "snd (css3d_extent c) = snd (gpu_extent c) \<longleftrightarrow> amountY c = 22.5"
    if "0 < amountY c \<and> separation c \<noteq> 0"
    using min_extent_iff [of "amountY c" "separation c" 15] that
    by (simp add: ex gpu_extent_def)
  show ?thesis
    using len bound pl ex fx fz by (simp add: css3d_separation_def)
qed

theorem css3d_reduced_grid_witness:
  "length (css3d_particles
     \<lparr>separation = 80, amountX = 60, amountY = 40, waveHeight = 30, waveSpeed = 0.05\<rparr>) = 300 \<and>
   css3d_extent
     \<lparr>separation = 80, amountX = 60, amountY = 40, waveHeight = 30, waveSpeed = 0.05\<rparr> =
     (2400, 1800) \<and>
   fst (css3d_extent
     \<lparr>separation = 80, amountX = 60, amountY = 40, waveHeight = 30, waveSpeed = 0.05\<rparr>) \<noteq>
   fst (gpu_extent
     \<lparr>separation = 80, amountX = 60, amountY = 40, waveHeight = 30, waveSpeed = 0.05\<rparr>)"
  using css3d_reduced_grid
    [of "\<lparr>separation = 80, amountX = 60, amountY = 40, waveHeight = 30, waveSpeed = 0.05\<rparr>"]
  by (simp add: gpu_extent_def)

text \<open>
  C7 as stated fails on the \<^verbatim>\<open>waves\<close> preset: the reduced grid covers 2400 by 1800,
  the full grid 4800 by 3200.
\<close>

theorem css3d_footprint_counterexample:
  "numeric waves =
     Some \<lparr>separation = 80, amountX = 60, amountY = 40, waveHeight = 30, waveSpeed = 0.05\<rparr> \<and>
   css3d_extent
     \<lparr>separation = 80, amountX = 60, amountY = 40, waveHeight = 30, waveSpeed = 0.05\<rparr> =
     (2400, 1800) \<and>
   gpu_extent
     \<lparr>separation = 80, amountX = 60, amountY = 40, waveHeight = 30, waveSpeed = 0.05\<rparr> =
     (4800, 3200)"
  by (simp add: waves_numeric css3d_extent_def gpu_extent_def css3d_amountX_def
      css3d_amountY_def css3d_separation_def)

section \<open>The controller, function by function\<close>

lemmas eval_defs =
  init_def loadThreeJS_def onThreeLoaded_def initWebGL_def initCSS3D_def startCSS3D_def
  createElements_def animate_def animateCSS3D_def run_loop_def hide_fallback_def
  getElementById_def showFallback_def webglSupported_def destroy_def cancelAnimationFrame_def
  color_missing_def resolve_config_def presetName_of_def chosen_preset_def get_preset_def
  detectPreset_def pathPresets_def startsWith_def presets_def no_options_def page_def
  host_def waves_def setupInteraction_def

lemma createElements_cases:
  obtains els where "createElements e s = (None, s\<lparr>elements := els\<rparr>)"
      and "set (elements s) \<subseteq> set els"
      and "''wavehero-canvas'' \<in> set els" and "''wavehero-fallback'' \<in> set els"
      and "body e \<or> (''wavehero-canvas'' \<in> set (elements s) \<and>
                      ''wavehero-fallback'' \<in> set (elements s))"
    | "createElements e s = (Some TypeError, s)" and "\<not> body e"
      and "''wavehero-canvas'' \<notin> set (elements s) \<or> ''wavehero-fallback'' \<notin> set (elements s)"
proof (cases "body e \<or> (''wavehero-canvas'' \<in> set (elements s) \<and>
                      ''wavehero-fallback'' \<in> set (elements s))")
  case True
  let ?els = "elements (snd (createElements e s))"
  have "createElements e s = (None, s\<lparr>elements := ?els\<rparr>)"
    using True by (auto simp: createElements_def)
  moreover have "set (elements s) \<subseteq> set ?els"
    by (auto simp: createElements_def)
  moreover have "''wavehero-canvas'' \<in> set ?els" "''wavehero-fallback'' \<in> set ?els"
    using True by (auto simp: createElements_def)
  ultimately show ?thesis using that(1) True by blast
next
  case False
  then have "createElements e s = (Some TypeError, s)"
    by (auto simp: createElements_def)
  with False show ?thesis using that(2) by blast
qed

lemma initCSS3D_step:
  "quiet_step s (snd (initCSS3D e s)) [CSS3DScript] [InitCSS3D] \<or>
   quiet_step s (snd (initCSS3D e s)) [] [InitCSS3D]"
  by (simp add: quiet_step_def initCSS3D_def Let_def)

lemma initCSS3D_head:
  "head e \<Longrightarrow>
   fst (initCSS3D e s) = None \<and> quiet_step s (snd (initCSS3D e s)) [CSS3DScript] [InitCSS3D]"
  by (simp add: quiet_step_def initCSS3D_def Let_def)

lemma initCSS3D_fields [simp]:
  "css3dRenderer (snd (initCSS3D e s)) = css3dRenderer s"
  "hidden (snd (initCSS3D e s)) = hidden s"
  by (simp_all add: initCSS3D_def Let_def)

lemma css3dRenderer_initWebGL [simp]: "css3dRenderer (snd (initWebGL e s)) = css3dRenderer s"
  by (rule createElements_cases
        [of e "s\<lparr>calls := calls s @ [InitWebGL], console := console s @ [CanvasNotFound]\<rparr>"])
     (auto simp: initWebGL_def Let_def initCSS3D_def animate_def run_loop_def hide_fallback_def
       setupInteraction_def split: option.splits sum.splits)

lemma initWebGL_step:
  "quiet_step s (snd (initWebGL e s)) [] [InitWebGL] \<or>
   quiet_step s (snd (initWebGL e s)) [CSS3DScript] [InitWebGL, InitCSS3D] \<or>
   quiet_step s (snd (initWebGL e s)) [] [InitWebGL, InitCSS3D] \<or>
   loop_step s (snd (initWebGL e s)) GpuLoop [InitWebGL]"
  by (rule createElements_cases
        [of e "s\<lparr>calls := calls s @ [InitWebGL], console := console s @ [CanvasNotFound]\<rparr>"])
     (auto simp: initWebGL_def Let_def initCSS3D_def animate_def run_loop_def hide_fallback_def
       setupInteraction_def quiet_step_def loop_step_def getElementById_def
       split: option.splits sum.splits)

text \<open>
  With a head and a container id that converts to a string the GPU tier either starts its
  loop or hands over to the DOM tier, whose script it requests; it throws only when
  \<^verbatim>\<open>createElements\<close> does.
\<close>

lemma initWebGL_head:
  "head e \<Longrightarrow> containerId s \<noteq> Symbol \<Longrightarrow>
   body e \<or> (''wavehero-canvas'' \<in> set (elements s) \<and> ''wavehero-fallback'' \<in> set (elements s)) \<Longrightarrow>
   fst (initWebGL e s) = None \<and>
   (quiet_step s (snd (initWebGL e s)) [CSS3DScript] [InitWebGL, InitCSS3D] \<or>
    loop_step s (snd (initWebGL e s)) GpuLoop [InitWebGL])"
  by (rule createElements_cases
        [of e "s\<lparr>calls := calls s @ [InitWebGL], console := console s @ [CanvasNotFound]\<rparr>"];
      cases "containerId s")
     (auto simp: initWebGL_def Let_def initCSS3D_def animate_def run_loop_def hide_fallback_def
       setupInteraction_def quiet_step_def loop_step_def getElementById_def
       split: option.splits sum.splits)

lemma css3dRenderer_onThreeLoaded [simp]:
  "css3dRenderer (snd (onThreeLoaded e s)) = css3dRenderer s"
  by (simp add: onThreeLoaded_def)

lemma onThreeLoaded_step:
  "quiet_step s (snd (onThreeLoaded e s)) [] [InitWebGL] \<or>
   quiet_step s (snd (onThreeLoaded e s)) [CSS3DScript] [InitWebGL, InitCSS3D] \<or>
   quiet_step s (snd (onThreeLoaded e s)) [] [InitWebGL, InitCSS3D] \<or>
   loop_step s (snd (onThreeLoaded e s)) GpuLoop [InitWebGL] \<or>
   quiet_step s (snd (onThreeLoaded e s)) [CSS3DScript] [InitCSS3D] \<or>
   quiet_step s (snd (onThreeLoaded e s)) [] [InitCSS3D]"
  using initWebGL_step [of s e] initCSS3D_step [of s e]
  by (auto simp: onThreeLoaded_def)

lemma onThreeLoaded_head:
  "head e \<Longrightarrow> containerId s \<noteq> Symbol \<Longrightarrow>
   body e \<or> (''wavehero-canvas'' \<in> set (elements s) \<and> ''wavehero-fallback'' \<in> set (elements s)) \<Longrightarrow>
   fst (onThreeLoaded e s) = None \<and>
   (quiet_step s (snd (onThreeLoaded e s)) [CSS3DScript] [InitWebGL, InitCSS3D] \<or>
    loop_step s (snd (onThreeLoaded e s)) GpuLoop [InitWebGL] \<or>
    quiet_step s (snd (onThreeLoaded e s)) [CSS3DScript] [InitCSS3D])"
  using initWebGL_head [of e s] initCSS3D_head [of e s]
  by (auto simp: onThreeLoaded_def)

lemma startCSS3D_step:
  "quiet_step s (snd (startCSS3D e s)) [] [StartCSS3D] \<or>
   quiet_step s (snd (startCSS3D e s)) [] [StartCSS3D, ShowFallback] \<or>
   loop_step s (snd (startCSS3D e s)) DomLoop [StartCSS3D]"
  by (auto simp: startCSS3D_def Let_def showFallback_def animateCSS3D_def run_loop_def
      hide_fallback_def setupInteraction_def quiet_step_def loop_step_def split: option.splits)


lemma css3dRenderer_loadThreeJS [simp]:
  "css3dRenderer (snd (loadThreeJS e s)) = css3dRenderer s"
  by (simp add: loadThreeJS_def)

lemma loadThreeJS_step:
  "quiet_step s (snd (loadThreeJS e s)) [ThreeScript] [] \<or>
   quiet_step s (snd (loadThreeJS e s)) [] [] \<or>
   quiet_step s (snd (loadThreeJS e s)) [] [InitWebGL] \<or>
   quiet_step s (snd (loadThreeJS e s)) [CSS3DScript] [InitWebGL, InitCSS3D] \<or>
   quiet_step s (snd (loadThreeJS e s)) [] [InitWebGL, InitCSS3D] \<or>
   loop_step s (snd (loadThreeJS e s)) GpuLoop [InitWebGL] \<or>
   quiet_step s (snd (loadThreeJS e s)) [CSS3DScript] [InitCSS3D] \<or>
   quiet_step s (snd (loadThreeJS e s)) [] [InitCSS3D]"
  using onThreeLoaded_step [of s e]
  by (auto simp: loadThreeJS_def quiet_step_def)

lemma loadThreeJS_head:
  "head e \<Longrightarrow> containerId s \<noteq> Symbol \<Longrightarrow>
   body e \<or> (''wavehero-canvas'' \<in> set (elements s) \<and> ''wavehero-fallback'' \<in> set (elements s)) \<Longrightarrow>
   fst (loadThreeJS e s) = None \<and>
   (quiet_step s (snd (loadThreeJS e s)) [ThreeScript] [] \<or>
    quiet_step s (snd (loadThreeJS e s)) [CSS3DScript] [InitWebGL, InitCSS3D] \<or>
    loop_step s (snd (loadThreeJS e s)) GpuLoop [InitWebGL] \<or>
    quiet_step s (snd (loadThreeJS e s)) [CSS3DScript] [InitCSS3D])"
  using onThreeLoaded_head [of e s]
  by (auto simp: loadThreeJS_def quiet_step_def)

lemma quiet_fields:
  "quiet_step s s' sc cs \<Longrightarrow>
   initialized s' = initialized s \<and> config s' = config s \<and> containerId s' = containerId s"
  by (simp add: quiet_step_def)

lemma loop_fields:
  "loop_step s s' k cs \<Longrightarrow>
   initialized s' = initialized s \<and> config s' = config s \<and> containerId s' = containerId s"
  by (simp add: loop_step_def)

lemma loadThreeJS_fields [simp]:
  "initialized (snd (loadThreeJS e s)) = initialized s"
  "config (snd (loadThreeJS e s)) = config s"
  using loadThreeJS_step [of s e] by (auto dest: quiet_fields loop_fields)

lemma onThreeLoaded_fields [simp]:
  "initialized (snd (onThreeLoaded e s)) = initialized s"
  "config (snd (onThreeLoaded e s)) = config s"
  "containerId (snd (onThreeLoaded e s)) = containerId s"
  using onThreeLoaded_step [of s e] by (auto dest: quiet_fields loop_fields)

lemma startCSS3D_fields [simp]:
  "initialized (snd (startCSS3D e s)) = initialized s"
  "config (snd (startCSS3D e s)) = config s"
  "containerId (snd (startCSS3D e s)) = containerId s"
  using startCSS3D_step [of s e] by (auto dest: quiet_fields loop_fields)





lemma ToString_or_else:
  "ToString (or_else v d) =
     (if v = Symbol then Inl TypeError
      else Inr (case v of Text s \<Rightarrow> if s = [] then d else s | _ \<Rightarrow> d))"
  by (cases v) simp_all

lemma or_else_Symbol: "or_else v d = Symbol \<longleftrightarrow> v = Symbol"
  by (cases v) simp_all

lemma plain_iff:
  "plain a \<longleftrightarrow>
     a \<noteq> ArgNull \<and>
     preset (case a of ArgObject x \<Rightarrow> x | _ \<Rightarrow> no_options) \<noteq> Symbol \<and>
     container (case a of ArgObject x \<Rightarrow> x | _ \<Rightarrow> no_options) \<noteq> Symbol \<and>
     fallbackId (case a of ArgObject x \<Rightarrow> x | _ \<Rightarrow> no_options) \<noteq> Symbol"
  by (cases a) (simp_all add: no_options_def)

text \<open>
  The five ways a call of \<^verbatim>\<open>init\<close> ends: it finds the pipeline initialized; it is
  given \<^verbatim>\<open>null\<close>; \<^verbatim>\<open>createElements\<close> fails for want of a body; the fallback id or
  the preset name does not convert to a string; or it marks the pipeline initialized in
  a state \<open>t\<close> and goes on to load the library.
\<close>

lemma init_cases:
  obtains (noop) "initialized s"
      and "init e a s = (None, s\<lparr>console := console s @ [AlreadyInitialized]\<rparr>)"
    | (null) "\<not> initialized s" and "a = ArgNull" and "init e a s = (Some TypeError, s)"
    | (nobody) "\<not> initialized s" and "a \<noteq> ArgNull" and "\<not> body e"
      and "''wavehero-canvas'' \<notin> set (elements s) \<or> ''wavehero-fallback'' \<notin> set (elements s)"
      and "init e a s =
             (Some TypeError,
              s\<lparr>config := Some (resolve_config (pathname e)
                   (case a of ArgObject x \<Rightarrow> x | _ \<Rightarrow> no_options))\<rparr>)"
    | (symbol) t where "\<not> initialized s" and "a \<noteq> ArgNull" and "\<not> plain a"
      and "alike s t" and "\<not> initialized t" and "init e a s = (Some TypeError, t)"
      and "config t = Some (resolve_config (pathname e)
                   (case a of ArgObject x \<Rightarrow> x | _ \<Rightarrow> no_options))"
    | (started) t where "\<not> initialized s" and "a \<noteq> ArgNull"
      and "body e \<or> (''wavehero-canvas'' \<in> set (elements s) \<and>
                      ''wavehero-fallback'' \<in> set (elements s))"
      and "alike s t" and "initialized t" and "''wavehero-fallback'' \<in> set (elements t)"
      and "init e a s = loadThreeJS e t"
      and "config t = Some (resolve_config (pathname e)
                   (case a of ArgObject x \<Rightarrow> x | _ \<Rightarrow> no_options))"
      and "''wavehero-canvas'' \<in> set (elements t)"
      and "plain a \<longrightarrow> containerId t \<noteq> Symbol"
proof (cases "initialized s")
  case True
  then show ?thesis using noop by (simp add: init_def)
next
  case False
  show ?thesis
  proof (cases "a = ArgNull")
    case True
    with False show ?thesis using null by (simp add: init_def)
  next
    case notnull: False
    define opts where "opts = (case a of ArgObject x \<Rightarrow> x | _ \<Rightarrow> no_options)"
    define s0 where "s0 = s\<lparr>config := Some (resolve_config (pathname e) opts)\<rparr>"
    define fid where
      "fid = (case fallbackId opts of Text x \<Rightarrow> if x = [] then ''wavehero-fallback'' else x
              | _ \<Rightarrow> ''wavehero-fallback'')"
    define name where
      "name = (case preset opts of Text x \<Rightarrow> if x = [] then detectPreset (pathname e) else x
               | _ \<Rightarrow> detectPreset (pathname e))"
    have i: "init e a s =
      (case createElements e s0 of (r, s1) \<Rightarrow>
         (case r of
            Some err \<Rightarrow> (Some err, s1)
          | None \<Rightarrow>
              if fallbackId opts = Symbol then
                (Some TypeError, s1\<lparr>containerId := or_else (container opts) ''wavehero-canvas''\<rparr>)
              else if preset opts = Symbol then
                (Some TypeError,
                 s1\<lparr>containerId := or_else (container opts) ''wavehero-canvas'',
                    fallbackEl :=
                      getElementById
                        (s1\<lparr>containerId := or_else (container opts) ''wavehero-canvas''\<rparr>) fid\<rparr>)
              else
                loadThreeJS e
                  (s1\<lparr>containerId := or_else (container opts) ''wavehero-canvas'',
                      fallbackEl :=
                        getElementById
                          (s1\<lparr>containerId := or_else (container opts) ''wavehero-canvas''\<rparr>) fid,
                      console := console s1 @ [Initializing name],
                      initialized := True\<rparr>)))"
      unfolding init_def Let_def opts_def s0_def fid_def name_def presetName_of_def
        ToString_or_else
      using False notnull by (cases a) (simp_all split: prod.splits option.splits)
    have pl: "plain a \<longleftrightarrow>
        preset opts \<noteq> Symbol \<and> container opts \<noteq> Symbol \<and> fallbackId opts \<noteq> Symbol"
      using notnull by (simp add: plain_iff opts_def)
    show ?thesis
    proof (rule createElements_cases [of e s0])
      fix els
      assume c: "createElements e s0 = (None, s0\<lparr>elements := els\<rparr>)"
        and sub: "set (elements s0) \<subseteq> set els"
        and anchors: "''wavehero-canvas'' \<in> set els" "''wavehero-fallback'' \<in> set els"
        and ok: "body e \<or> (''wavehero-canvas'' \<in> set (elements s0) \<and>
                      ''wavehero-fallback'' \<in> set (elements s0))"
      let ?s1 = "s0\<lparr>elements := els\<rparr>"
      let ?s2 = "?s1\<lparr>containerId := or_else (container opts) ''wavehero-canvas''\<rparr>"
      let ?s3 = "?s2\<lparr>fallbackEl := getElementById ?s2 fid\<rparr>"
      let ?t = "?s3\<lparr>console := console ?s1 @ [Initializing name], initialized := True\<rparr>"
      have cfg: "config ?s2 = Some (resolve_config (pathname e)
                   (case a of ArgObject x \<Rightarrow> x | _ \<Rightarrow> no_options))"
        "config ?s3 = Some (resolve_config (pathname e)
                   (case a of ArgObject x \<Rightarrow> x | _ \<Rightarrow> no_options))"
        "config ?t = Some (resolve_config (pathname e)
                   (case a of ArgObject x \<Rightarrow> x | _ \<Rightarrow> no_options))"
        by (simp_all add: s0_def opts_def)
      have al: "alike s ?s2" "alike s ?s3" "alike s ?t"
        using sub by (simp_all add: alike_def s0_def)
      have ni: "\<not> initialized ?s2" "\<not> initialized ?s3"
        using False by (simp_all add: s0_def)
      consider (fb) "fallbackId opts = Symbol"
        | (pr) "fallbackId opts \<noteq> Symbol" "preset opts = Symbol"
        | (go) "fallbackId opts \<noteq> Symbol" "preset opts \<noteq> Symbol"
        by blast
      then show ?thesis
      proof cases
        case fb
        with i c have "init e a s = (Some TypeError, ?s2)" by simp
        moreover have "\<not> plain a" using fb pl by simp
        ultimately show ?thesis using symbol [of ?s2] False notnull al(1) ni(1) cfg(1) by blast
      next
        case pr
        with i c have "init e a s = (Some TypeError, ?s3)" by simp
        moreover have "\<not> plain a" using pr pl by simp
        ultimately show ?thesis using symbol [of ?s3] False notnull al(2) ni(2) cfg(2) by blast
      next
        case go
        with i c have "init e a s = loadThreeJS e ?t" by simp
        moreover have "initialized ?t" "''wavehero-fallback'' \<in> set (elements ?t)"
          "''wavehero-canvas'' \<in> set (elements ?t)"
          using anchors by simp_all
        moreover have "body e \<or> (''wavehero-canvas'' \<in> set (elements s) \<and>
                      ''wavehero-fallback'' \<in> set (elements s))"
          using ok by (simp add: s0_def)
        moreover have "plain a \<longrightarrow> containerId ?t \<noteq> Symbol"
          using pl by (simp add: or_else_Symbol)
        ultimately show ?thesis using started [of ?t] False notnull al(3) cfg(3) by blast
      qed
    next
      assume c: "createElements e s0 = (Some TypeError, s0)" and b: "\<not> body e"
        and m: "''wavehero-canvas'' \<notin> set (elements s0) \<or>
                ''wavehero-fallback'' \<notin> set (elements s0)"
      from c i have "init e a s = (Some TypeError, s0)" by simp
      with b m show ?thesis using nobody False notnull by (simp add: s0_def opts_def)
    qed
  qed
qed

text \<open>
  \<^verbatim>\<open>init\<close> returns when its argument has the documented shape, \<^verbatim>\<open>document.head\<close>
  exists, and \<^verbatim>\<open>document.body\<close> exists or both anchor elements are there already.
\<close>

lemma init_returns:
  assumes "plain a" and "head e"
    and "body e \<or> (''wavehero-canvas'' \<in> set (elements s) \<and>
                    ''wavehero-fallback'' \<in> set (elements s))"
  shows "fst (init e a s) = None"
proof (cases rule: init_cases [of s e a])
  case noop
  then show ?thesis by simp
next
  case null
  with assms(1) show ?thesis by simp
next
  case nobody
  with assms(3) show ?thesis by blast
next
  case (symbol t)
  with assms(1) show ?thesis by simp
next
  case (started t)
  from started(10) assms(1) have "containerId t \<noteq> Symbol" by simp
  with loadThreeJS_head [OF assms(2), of t] started(6,9) started(7) show ?thesis by simp
qed

lemma init_initialized: "fst (init e a s) = None \<Longrightarrow> initialized (snd (init e a s))"
  by (cases rule: init_cases [of s e a]) auto

lemma init_config:
  "\<not> initialized s \<Longrightarrow>
   config (snd (init e (ArgObject opts) s)) = Some (resolve_config (pathname e) opts)"
  by (cases rule: init_cases [of s e "ArgObject opts"]) auto

lemma css3dRenderer_init: "css3dRenderer (snd (init e a s)) = css3dRenderer s"
proof (cases rule: init_cases [of s e a])
  case noop
  then show ?thesis by simp
next
  case null
  then show ?thesis by simp
next
  case nobody
  then show ?thesis by simp
next
  case (symbol t)
  then show ?thesis by (simp add: alike_def)
next
  case (started t)
  from started(4) have "css3dRenderer t = css3dRenderer s" by (simp add: alike_def)
  with started(7) show ?thesis by simp
qed

lemma quiet_trace:
  "quiet_step s s' sc cs \<Longrightarrow> scripts s' = scripts s @ sc \<and> calls s' = calls s @ cs"
  by (simp add: quiet_step_def)

lemma loop_trace:
  "loop_step s s' k cs \<Longrightarrow> scripts s' = scripts s \<and> calls s' = calls s @ cs"
  by (simp add: loop_step_def)

lemma alike_trace: "alike s t \<Longrightarrow> scripts t = scripts s \<and> calls t = calls s"
  by (simp add: alike_def)

section \<open>Tier entries within one session\<close>

lemma in_session_init: "in_session s \<Longrightarrow> in_session (snd (init e a s))"
proof (cases rule: init_cases [of s e a])
  case noop
  assume "in_session s"
  with noop show ?thesis by (simp add: in_session_def)
next
  case null
  assume "in_session s"
  with null show ?thesis by simp
next
  case nobody
  assume "in_session s"
  with nobody show ?thesis by (simp add: in_session_def)
next
  case (symbol t)
  assume "in_session s"
  with symbol(1) have "scripts s = []" "calls s = []" by (simp_all add: in_session_def)
  with alike_trace [OF symbol(4)] have "in_session t" by (simp add: in_session_def)
  with symbol(6) show ?thesis by simp
next
  case (started t)
  assume k: "in_session s"
  with started(1) have "scripts s = []" "calls s = []" by (simp_all add: in_session_def)
  with alike_trace [OF started(4)] have e: "scripts t = []" "calls t = []" by simp_all
  let ?s' = "snd (loadThreeJS e t)"
  have i: "initialized ?s'" using started(5) by simp
  from loadThreeJS_step [of t e]
  have "(scripts ?s', calls ?s') \<in> set
          [([ThreeScript], []), ([], []), ([], [InitWebGL]),
           ([CSS3DScript], [InitWebGL, InitCSS3D]), ([], [InitWebGL, InitCSS3D]),
           ([CSS3DScript], [InitCSS3D]), ([], [InitCSS3D])]"
    by (auto dest!: quiet_trace loop_trace simp: e)
  then have "in_session ?s'" using i by (auto simp: in_session_def)
  with started(7) show ?thesis by simp
qed

lemma in_session_scripts:
  assumes "in_session s" and "sc \<in> set (scripts s)"
  shows "scripts s = [sc]" and "initialized s"
    and "sc = ThreeScript \<Longrightarrow> calls s = []"
    and "sc = CSS3DScript \<Longrightarrow> calls s = [InitWebGL, InitCSS3D] \<or> calls s = [InitCSS3D]"
  using assms by (auto simp: in_session_def)

lemma in_session_load: "in_session s \<Longrightarrow> in_session (step e (ScriptLoad sc) s)"
proof (cases "sc \<in> set (scripts s)")
  case False
  assume "in_session s"
  with False show ?thesis by simp
next
  case True
  assume k: "in_session s"
  note f = in_session_scripts [OF k True]
  show ?thesis
  proof (cases sc)
    case ThreeScript
    let ?s0 = "s\<lparr>scripts := remove1 sc (scripts s), THREE := True\<rparr>"
    let ?s' = "snd (onThreeLoaded e ?s0)"
    have e: "scripts ?s0 = []" "calls ?s0 = []" using f(1) f(3) [OF ThreeScript] by simp_all
    from onThreeLoaded_step [of ?s0 e]
    have "(scripts ?s', calls ?s') \<in> set
          [([], [InitWebGL]),
           ([CSS3DScript], [InitWebGL, InitCSS3D]), ([], [InitWebGL, InitCSS3D]),
           ([CSS3DScript], [InitCSS3D]), ([], [InitCSS3D])]"
      by (auto dest!: quiet_trace loop_trace simp: e simp del: remove1.simps)
    moreover have "initialized ?s'" using f(2) by simp
    ultimately have "in_session ?s'" by (auto simp: in_session_def)
    then show ?thesis using True ThreeScript by simp
  next
    case CSS3DScript
    let ?s0 = "s\<lparr>scripts := remove1 sc (scripts s)\<rparr>"
    let ?s' = "snd (startCSS3D e ?s0)"
    have e: "scripts ?s0 = []" using f(1) by simp
    have c: "calls ?s0 = [InitWebGL, InitCSS3D] \<or> calls ?s0 = [InitCSS3D]"
      using f(4) [OF CSS3DScript] by simp
    from startCSS3D_step [of ?s0 e]
    have t: "scripts ?s' = [] \<and>
       (calls ?s' = calls ?s0 @ [StartCSS3D] \<or> calls ?s' = calls ?s0 @ [StartCSS3D, ShowFallback])"
      by (auto dest!: quiet_trace loop_trace simp: e)
    have "initialized ?s'" using f(2) by simp
    with t c have "in_session ?s'" by (auto simp: in_session_def)
    then show ?thesis using True CSS3DScript by simp
  qed
qed

lemma in_session_error: "in_session s \<Longrightarrow> in_session (step e (ScriptError sc) s)"
proof (cases "sc \<in> set (scripts s)")
  case False
  assume "in_session s"
  with False show ?thesis by simp
next
  case True
  assume k: "in_session s"
  note f = in_session_scripts [OF k True]
  let ?s0 = "s\<lparr>scripts := remove1 sc (scripts s)\<rparr>"
  have e: "scripts ?s0 = []" using f(1) by simp
  show ?thesis
  proof (cases sc)
    case ThreeScript
    from f(3) [OF this] e f(2) have "in_session (showFallback ThreeLoadFailed ?s0)"
      by (simp add: in_session_def showFallback_def)
    then show ?thesis using True ThreeScript by simp
  next
    case CSS3DScript
    from f(4) [OF this] e f(2) have "in_session (showFallback CSS3DLoadFailed ?s0)"
      by (auto simp: in_session_def showFallback_def)
    then show ?thesis using True CSS3DScript by simp
  qed
qed

lemma in_session_frame: "in_session s \<Longrightarrow> in_session (step e (Frame h) s)"
  by (cases "map_of (frames s) h")
     (simp_all add: in_session_def run_loop_def cancelAnimationFrame_def)

lemma in_session_step:
  "in_session s \<Longrightarrow> ev \<noteq> CallDestroy \<Longrightarrow> in_session (step e ev s)"
proof (cases ev)
  case (CallInit a)
  assume "in_session s"
  then show ?thesis using CallInit by (simp add: in_session_init)
next
  case CallDestroy
  assume "ev \<noteq> CallDestroy"
  with CallDestroy show ?thesis by simp
next
  case (ScriptLoad sc)
  assume "in_session s"
  then show ?thesis unfolding ScriptLoad by (rule in_session_load)
next
  case (ScriptError sc)
  assume "in_session s"
  then show ?thesis unfolding ScriptError by (rule in_session_error)
next
  case (Frame h)
  assume "in_session s"
  then show ?thesis unfolding Frame by (rule in_session_frame)
qed

lemma in_session_run:
  "in_session s \<Longrightarrow> CallDestroy \<notin> snd ` set evs \<Longrightarrow> in_session (run evs s)"
proof (induction evs arbitrary: s)
  case Nil
  then show ?case by simp
next
  case (Cons x evs)
  obtain e ev where x: "x = (e, ev)" by (cases x)
  with Cons.prems have d: "ev \<noteq> CallDestroy" "CallDestroy \<notin> snd ` set evs" by auto
  have "in_session (step e ev s)" using Cons.prems(1) d(1) by (rule in_session_step)
  from Cons.IH [OF this d(2)] x show ?case by simp
qed

lemma in_session_page: "in_session (page three ids)"
  by (simp add: in_session_def page_def)

lemma in_session_traces:
  "in_session s \<Longrightarrow> calls s \<in> set session_traces \<and> InitWebGL \<notin> set (tl (calls s))"
  by (auto simp: in_session_def session_traces_def)

text \<open>
  C2, as amended.  On a page where \<^verbatim>\<open>destroy\<close> is not called, whatever else happens
  (calls of \<^verbatim>\<open>init\<close>, script loads that succeed or fail, frames), the tier entries
  form one of the session traces: \<^verbatim>\<open>initWebGL\<close> is entered at most once and before
  every other tier entry, so the GPU tier is never entered again after the DOM tier or
  the static fallback, and the only hand-overs are from the GPU tier to the DOM tier and
  from the DOM tier to the static fallback.
\<close>

theorem no_gpu_reentry_in_session:
  assumes "CallDestroy \<notin> snd ` set evs"
  shows "calls (run evs (page three ids)) \<in> set session_traces \<and>
         InitWebGL \<notin> set (tl (calls (run evs (page three ids))))"
proof -
  have "in_session (run evs (page three ids))"
    using in_session_page assms by (rule in_session_run)
  then show ?thesis by (rule in_session_traces)
qed

theorem no_gpu_reentry_in_session_witness:
  "calls (run [(host True True, CallInit ArgUndefined),
               (host True True, ScriptLoad CSS3DScript)] (page True [])) =
     [InitWebGL, InitCSS3D, StartCSS3D, ShowFallback] \<and>
   calls (run [(host True True, CallInit ArgUndefined),
               (host True True, ScriptLoad CSS3DScript)] (page True []))
     \<in> set session_traces"
proof -
  let ?evs = "[(host True True, CallInit ArgUndefined),
               (host True True, ScriptLoad CSS3DScript)]"
  have "CallDestroy \<notin> snd ` set ?evs" by simp
  from no_gpu_reentry_in_session [OF this, of True "[]"]
  have "calls (run ?evs (page True [])) \<in> set session_traces" by simp
  moreover have "calls (run ?evs (page True [])) =
     [InitWebGL, InitCSS3D, StartCSS3D, ShowFallback]"
    by (simp add: eval_defs Let_def)
  ultimately show ?thesis by simp
qed

text \<open>
  C2 as stated fails: \<^verbatim>\<open>destroy\<close> clears \<^verbatim>\<open>initialized\<close>, so a later \<^verbatim>\<open>init\<close> on
  the same page probes again.  Where the renderer's constructor throws, the first
  \<^verbatim>\<open>init\<close> enters the GPU tier and hands over to the DOM tier, and after
  \<^verbatim>\<open>destroy\<close> the second \<^verbatim>\<open>init\<close> enters the GPU tier again.
\<close>

theorem gpu_reentry_counterexample:
  "calls (run [(host True False, CallInit ArgUndefined),
               (host True False, CallDestroy),
               (host True False, CallInit ArgUndefined)] (page True [])) =
     [InitWebGL, InitCSS3D, InitWebGL, InitCSS3D]"
  by (simp add: eval_defs Let_def)

section \<open>The render loop and \<^verbatim>\<open>destroy\<close>\<close>

lemma alike_loop_fields:
  "alike s t \<Longrightarrow>
   scripts t = scripts s \<and> frames t = frames s \<and> animationId t = animationId s \<and>
   next_handle t = next_handle s"
  by (simp add: alike_def)

lemma one_loop_quiet:
  "1 \<le> next_handle t \<Longrightarrow> scripts t = [] \<Longrightarrow> frames t = [] \<Longrightarrow> initialized s' \<Longrightarrow>
   quiet_step t s' sc cs \<Longrightarrow> length sc \<le> 1 \<Longrightarrow> one_loop s'"
  by (simp add: quiet_step_def one_loop_def)

lemma one_loop_loop:
  "1 \<le> next_handle t \<Longrightarrow> scripts t = [] \<Longrightarrow> frames t = [] \<Longrightarrow> initialized s' \<Longrightarrow>
   loop_step t s' k cs \<Longrightarrow> one_loop s'"
  by (simp add: loop_step_def one_loop_def)

lemma one_loop_init: "one_loop s \<Longrightarrow> one_loop (snd (init e a s))"
proof (cases rule: init_cases [of s e a])
  case noop
  assume "one_loop s"
  with noop show ?thesis by (simp add: one_loop_def)
next
  case null
  assume "one_loop s"
  with null show ?thesis by simp
next
  case nobody
  assume "one_loop s"
  with nobody show ?thesis by (simp add: one_loop_def)
next
  case (symbol t)
  assume "one_loop s"
  with symbol(1) alike_loop_fields [OF symbol(4)] have "one_loop t"
    by (simp add: one_loop_def)
  with symbol(6) show ?thesis by simp
next
  case (started t)
  assume k: "one_loop s"
  with started(1) have "scripts s = []" "frames s = []" "1 \<le> next_handle s"
    by (simp_all add: one_loop_def)
  with alike_loop_fields [OF started(4)]
  have e: "1 \<le> next_handle t" "scripts t = []" "frames t = []" by simp_all
  let ?s' = "snd (loadThreeJS e t)"
  have i: "initialized ?s'" using started(5) by simp
  note q = one_loop_quiet [OF e i] and l = one_loop_loop [OF e i]
  from loadThreeJS_step [of t e] have "one_loop ?s'"
    by (elim disjE) ((erule q, simp) | erule l)+
  with started(7) show ?thesis by simp
qed

lemma one_loop_scripts:
  assumes "one_loop s" and "sc \<in> set (scripts s)"
  shows "scripts s = [sc]" and "frames s = []" and "initialized s" and "1 \<le> next_handle s"
  using assms by (cases "scripts s"; auto simp: one_loop_def)+

lemma one_loop_load: "one_loop s \<Longrightarrow> one_loop (step e (ScriptLoad sc) s)"
proof (cases "sc \<in> set (scripts s)")
  case False
  assume "one_loop s"
  with False show ?thesis by simp
next
  case True
  assume k: "one_loop s"
  note f = one_loop_scripts [OF k True]
  show ?thesis
  proof (cases sc)
    case ThreeScript
    let ?s0 = "s\<lparr>scripts := remove1 sc (scripts s), THREE := True\<rparr>"
    let ?s' = "snd (onThreeLoaded e ?s0)"
    have e: "1 \<le> next_handle ?s0" "scripts ?s0 = []" "frames ?s0 = []"
      using f by simp_all
    have i: "initialized ?s'" using f(3) by simp
    note q = one_loop_quiet [OF e i] and l = one_loop_loop [OF e i]
    from onThreeLoaded_step [of ?s0 e] have "one_loop ?s'"
      by (elim disjE) ((erule q, simp) | erule l)+
    then show ?thesis using True ThreeScript by simp
  next
    case CSS3DScript
    let ?s0 = "s\<lparr>scripts := remove1 sc (scripts s)\<rparr>"
    let ?s' = "snd (startCSS3D e ?s0)"
    have e: "1 \<le> next_handle ?s0" "scripts ?s0 = []" "frames ?s0 = []"
      using f by simp_all
    have i: "initialized ?s'" using f(3) by simp
    note q = one_loop_quiet [OF e i] and l = one_loop_loop [OF e i]
    from startCSS3D_step [of ?s0 e] have "one_loop ?s'"
      by (elim disjE) ((erule q, simp) | erule l)+
    then show ?thesis using True CSS3DScript by simp
  qed
qed

lemma one_loop_error: "one_loop s \<Longrightarrow> one_loop (step e (ScriptError sc) s)"
proof (cases "sc \<in> set (scripts s)")
  case False
  assume "one_loop s"
  with False show ?thesis by simp
next
  case True
  assume k: "one_loop s"
  note f = one_loop_scripts [OF k True]
  then show ?thesis using True
    by (cases sc) (simp_all add: one_loop_def showFallback_def)
qed

lemma one_loop_frame: "one_loop s \<Longrightarrow> one_loop (step e (Frame h) s)"
proof (cases "map_of (frames s) h")
  case None
  assume "one_loop s"
  with None show ?thesis by simp
next
  case (Some k)
  assume o: "one_loop s"
  from Some have m: "(h, k) \<in> set (frames s)" by (rule map_of_SomeD)
  with o have "frames s = [(h, k)] \<and> scripts s = [] \<and> initialized s \<and> 1 \<le> next_handle s"
    by (cases "frames s"; auto simp: one_loop_def)
  with Some show ?thesis
    by (simp add: one_loop_def run_loop_def cancelAnimationFrame_def)
qed

lemma destroy_idle:
  assumes "one_loop s" and "scripts s = []"
  shows "frames (destroy s) = []" and "scripts (destroy s) = []" and "one_loop (destroy s)"
proof -
  have "frames s = [] \<or> (\<exists>h k. frames s = [(h, k)] \<and> animationId s = Some h \<and> h \<noteq> 0)"
    using assms by (cases "frames s"; auto simp: one_loop_def)
  then show "frames (destroy s) = []"
    by (auto simp: destroy_def cancelAnimationFrame_def split: option.splits)
  show "scripts (destroy s) = []"
    using assms(2) by (auto simp: destroy_def cancelAnimationFrame_def split: option.splits)
  with \<open>frames (destroy s) = []\<close> show "one_loop (destroy s)"
    using assms(1) by (auto simp: one_loop_def destroy_def cancelAnimationFrame_def
        split: option.splits)
qed

lemma one_loop_step:
  "one_loop s \<Longrightarrow> (if ev = CallDestroy then scripts s = [] else True) \<Longrightarrow>
   one_loop (step e ev s)"
proof (cases ev)
  case (CallInit a)
  assume "one_loop s"
  then show ?thesis using CallInit by (simp add: one_loop_init)
next
  case CallDestroy
  assume "one_loop s" "if ev = CallDestroy then scripts s = [] else True"
  with CallDestroy show ?thesis by (simp add: destroy_idle)
next
  case (ScriptLoad sc)
  assume "one_loop s"
  then show ?thesis unfolding ScriptLoad by (rule one_loop_load)
next
  case (ScriptError sc)
  assume "one_loop s"
  then show ?thesis unfolding ScriptError by (rule one_loop_error)
next
  case (Frame h)
  assume "one_loop s"
  then show ?thesis unfolding Frame by (rule one_loop_frame)
qed

lemma one_loop_run: "one_loop s \<Longrightarrow> idle_destroys evs s \<Longrightarrow> one_loop (run evs s)"
proof (induction evs arbitrary: s)
  case Nil
  then show ?case by simp
next
  case (Cons x evs)
  obtain e ev where x: "x = (e, ev)" by (cases x)
  with Cons.prems(2) have d: "if ev = CallDestroy then scripts s = [] else True"
    and r: "idle_destroys evs (step e ev s)" by simp_all
  have "one_loop (step e ev s)" using Cons.prems(1) d by (rule one_loop_step)
  from Cons.IH [OF this r] x show ?case by simp
qed

lemma one_loop_page: "one_loop (page three ids)"
  by (simp add: one_loop_def page_def)

lemma dormant_step:
  "frames s = [] \<Longrightarrow> scripts s = [] \<Longrightarrow> \<not> is_init ev \<Longrightarrow>
   frames (step e ev s) = [] \<and> scripts (step e ev s) = []"
  by (cases ev) (auto simp: destroy_def cancelAnimationFrame_def split: option.splits)

lemma dormant_run:
  "frames s = [] \<Longrightarrow> scripts s = [] \<Longrightarrow> list_all (\<lambda>x. \<not> is_init (snd x)) evs \<Longrightarrow>
   frames (run evs s) = [] \<and> scripts (run evs s) = []"
proof (induction evs arbitrary: s)
  case Nil
  then show ?case by simp
next
  case (Cons x evs)
  obtain e ev where x: "x = (e, ev)" by (cases x)
  with Cons.prems(3) have n: "\<not> is_init ev" and r: "list_all (\<lambda>x. \<not> is_init (snd x)) evs"
    by simp_all
  from dormant_step [OF Cons.prems(1,2) n, of e]
  have "frames (step e ev s) = []" "scripts (step e ev s) = []" by simp_all
  from Cons.IH [OF this r] x show ?case by simp
qed

lemma destroy_twice: "destroy (destroy s) = destroy s"
  by (auto simp: destroy_def cancelAnimationFrame_def split: option.splits)

lemma destroy_page: "destroy (page three ids) = page three ids"
  by (simp add: destroy_def page_def)

text \<open>
  C3, as amended.  On a page where every \<^verbatim>\<open>destroy\<close> so far was called while no script
  load was in flight, a \<^verbatim>\<open>destroy\<close> called while no script load is in flight cancels
  the frame request in flight: afterwards no frame request is in flight, and none comes
  to be, whatever happens, until \<^verbatim>\<open>init\<close> is called again.  A second \<^verbatim>\<open>destroy\<close>
  changes nothing, in any state, and \<^verbatim>\<open>destroy\<close> before any \<^verbatim>\<open>init\<close> changes nothing.
\<close>

theorem destroy_stops_the_loop:
  assumes "idle_destroys evs (page three ids)"
    and "scripts (run evs (page three ids)) = []"
    and "list_all (\<lambda>x. \<not> is_init (snd x)) later"
  shows "frames (run later (destroy (run evs (page three ids)))) = [] \<and>
         destroy (destroy s) = destroy s \<and>
         destroy (page three ids) = page three ids"
proof -
  have "one_loop (run evs (page three ids))"
    using one_loop_page assms(1) by (rule one_loop_run)
  from destroy_idle(1,2) [OF this assms(2)] dormant_run [OF _ _ assms(3)]
  show ?thesis by (simp add: destroy_twice destroy_page)
qed

theorem destroy_stops_the_loop_witness:
  "frames (run [(host False False, CallInit ArgUndefined), (host False False, Frame 1)]
            (page True [])) = [(2, GpuLoop)] \<and>
   frames (run [(host False False, Frame 2), (host False False, CallDestroy)]
            (destroy (run [(host False False, CallInit ArgUndefined),
                           (host False False, Frame 1)] (page True [])))) = []"
proof -
  let ?evs = "[(host False False, CallInit ArgUndefined), (host False False, Frame 1)]"
  let ?later = "[(host False False, Frame 2), (host False False, CallDestroy)]"
  have a: "idle_destroys ?evs (page True [])" by simp
  have f: "frames (run ?evs (page True [])) = [(2, GpuLoop)]"
    by (simp add: eval_defs Let_def)
  have b: "scripts (run ?evs (page True [])) = []"
    by (simp add: eval_defs Let_def)
  have c: "list_all (\<lambda>x. \<not> is_init (snd x)) ?later" by simp
  from destroy_stops_the_loop [OF a b c] f show ?thesis by simp
qed

text \<open>
  C3 as stated fails: \<^verbatim>\<open>destroy\<close> does not withdraw a script load in flight.  Called
  while the library is loading it finds no frame request to cancel; when the load
  completes, the GPU tier starts its loop, and its frame callback fires and requests
  the next frame.
\<close>

theorem destroy_while_loading_counterexample:
  "frames (run [(host False False, CallInit ArgUndefined),
                (host False False, CallDestroy)] (page False [])) = [] \<and>
   frames (run [(host False False, CallInit ArgUndefined),
                (host False False, CallDestroy),
                (host False False, ScriptLoad ThreeScript)] (page False [])) = [(1, GpuLoop)] \<and>
   frames (run [(host False False, CallInit ArgUndefined),
                (host False False, CallDestroy),
                (host False False, ScriptLoad ThreeScript),
                (host False False, Frame 1)] (page False [])) = [(2, GpuLoop)]"
  by (simp add: eval_defs Let_def)

section \<open>What \<^verbatim>\<open>init\<close> leaves on the page\<close>











lemma no_destroy_set:
  "list_all (\<lambda>x. body (fst x) \<and> snd x \<noteq> CallDestroy) evs \<Longrightarrow> CallDestroy \<notin> snd ` set evs"
  by (induction evs) auto



section \<open>Tiers\<close>















text \<open>
  The other conditions are needed as well.  A symbol as preset name reaches the string
  concatenation of the log line, and on a page without \<^verbatim>\<open>document.head\<close> the request
  of the library fails; either \<^verbatim>\<open>TypeError\<close> reaches the caller of \<^verbatim>\<open>init\<close>.
\<close>

lemma init_symbol_throws:
  "fst (init (host False False) (ArgObject (no_options\<lparr>preset := Symbol\<rparr>)) (page True [])) =
     Some TypeError"
  by (simp add: eval_defs Let_def)

lemma init_without_head_throws:
  "fst (init ((host False False)\<lparr>head := False\<rparr>) ArgUndefined (page False [])) =
     Some TypeError"
  by (simp add: eval_defs Let_def)

text \<open>
  C9.  After a call of \<^verbatim>\<open>init\<close> that returned, a second call returns at once: it adds
  the line \<^verbatim>\<open>Already initialized\<close> to the console and changes nothing else, whatever
  its argument and the host.  On a freshly loaded page the state after both calls has at
  most one script load or frame request in flight and no DOM tier renderer beside the
  GPU tier's.
\<close>

theorem second_init_is_noop:
  assumes "fst (init e1 a1 s) = None" and "s1 = snd (init e1 a1 s)"
  shows "init e2 a2 s1 = (None, s1\<lparr>console := console s1 @ [AlreadyInitialized]\<rparr>) \<and>
         (\<forall>three ids. s = page three ids \<longrightarrow>
            length (frames (snd (init e2 a2 s1))) + length (scripts (snd (init e2 a2 s1))) \<le> 1 \<and>
            \<not> css3dRenderer (snd (init e2 a2 s1)))"
proof -
  have i: "initialized s1" using assms by (simp add: init_initialized)
  then have n: "init e2 a2 s1 = (None, s1\<lparr>console := console s1 @ [AlreadyInitialized]\<rparr>)"
    by (simp add: init_def)
  have "length (frames (snd (init e2 a2 s1))) + length (scripts (snd (init e2 a2 s1))) \<le> 1 \<and>
        \<not> css3dRenderer (snd (init e2 a2 s1))" if "s = page three ids" for three ids
  proof -
    have "one_loop s1" unfolding assms(2) that using one_loop_page by (rule one_loop_init)
    moreover have "\<not> css3dRenderer s1"
      unfolding assms(2) that by (simp add: css3dRenderer_init) (simp add: page_def)
    ultimately show ?thesis using n by (simp add: one_loop_def)
  qed
  with n show ?thesis by blast
qed

theorem second_init_is_noop_witness:
  "fst (init (host False False) ArgUndefined (page True [])) = None \<and>
   fst (init (host False False) ArgNull
         (snd (init (host False False) ArgUndefined (page True [])))) = None \<and>
   frames (snd (init (host False False) ArgNull
         (snd (init (host False False) ArgUndefined (page True []))))) = [(1, GpuLoop)]"
proof -
  have a: "fst (init (host False False) ArgUndefined (page True [])) = None"
    by (simp add: init_returns host_def)
  have f: "frames (snd (init (host False False) ArgUndefined (page True []))) = [(1, GpuLoop)]"
    by (simp add: eval_defs Let_def)
  from second_init_is_noop [OF a refl, of "host False False" ArgNull] a f
  show ?thesis by simp
qed

section \<open>Preset resolution\<close>

lemmas resolve_defs =
  resolve_config_def presetName_of_def chosen_preset_def get_preset_def

lemma chosen_unknown:
  "map_of presets name = None \<Longrightarrow> name \<notin> set object_prototype_keys \<Longrightarrow>
   chosen_preset (Text name) = Preset waves"
  by (simp add: chosen_preset_def get_preset_def)

lemma quantum_neq_waves: "quantum \<noteq> waves"
proof
  assume "quantum = waves"
  then have "quantum ''separation'' = waves ''separation''" by simp
  then show False by (simp add: quantum_def waves_def)
qed

lemma detect_quantum: "detectPreset ''/quantum'' = ''quantum''"
  by (simp add: detectPreset_def pathPresets_def startsWith_def)

text \<open>
  A name found on \<^verbatim>\<open>Object.prototype\<close> is truthy and spreads to nothing: the
  configuration then holds the overrides alone.
\<close>

lemma inherited_name_spreads_nothing:
  "resolve_config path (no_options\<lparr>preset := Text ''toString''\<rparr>) = Map.empty"
  by (simp add: resolve_defs presets_def no_options_def object_prototype_keys_def)

text \<open>
  C8, as amended.  A preset name that is not empty, is not a defined preset and is not a
  property inherited from \<^verbatim>\<open>Object.prototype\<close> makes \<^verbatim>\<open>init\<close> resolve the
  configuration to the \<^verbatim>\<open>waves\<close> preset, under the custom bundle and the colour
  override; with no overrides the configuration is the \<^verbatim>\<open>waves\<close> preset exactly.
\<close>

theorem init_unknown_preset:
  assumes "\<not> initialized s"
    and "name \<noteq> []"
    and "map_of presets name = None"
    and "name \<notin> set object_prototype_keys"
  shows "config (snd (init e (ArgObject (opts\<lparr>preset := Text name\<rparr>)) s)) =
           Some (if truthy (color opts) then (waves ++ custom opts)(''color'' \<mapsto> color opts)
                 else waves ++ custom opts) \<and>
         config (snd (init e (ArgObject (no_options\<lparr>preset := Text name\<rparr>)) s)) = Some waves"
proof -
  have name: "presetName_of (pathname e) (o'\<lparr>preset := Text name\<rparr>) = Text name"
    for o' :: options
    using assms(2) by (simp add: presetName_of_def)
  have "resolve_config (pathname e) (opts\<lparr>preset := Text name\<rparr>) =
          (if truthy (color opts) then (waves ++ custom opts)(''color'' \<mapsto> color opts)
           else waves ++ custom opts)"
    using assms(3,4) by (simp add: resolve_config_def name chosen_unknown)
  moreover have "resolve_config (pathname e) (no_options\<lparr>preset := Text name\<rparr>) = waves"
    unfolding resolve_config_def name
    using assms(3,4) by (simp add: chosen_unknown no_options_def)
  ultimately show ?thesis
    using assms(1) by (simp add: init_config)
qed

theorem init_unknown_preset_witness:
  "config (snd (init (host False False)
                  (ArgObject (no_options\<lparr>preset := Text ''bogus''\<rparr>))
                  (page True []))) = Some waves"
proof -
  have "\<not> initialized (page True [])"
    by (simp add: page_def)
  moreover have "''bogus'' \<noteq> []"
    by simp
  moreover have "map_of presets ''bogus'' = None"
    by (simp add: presets_def)
  moreover have "''bogus'' \<notin> set object_prototype_keys"
    by (simp add: object_prototype_keys_def)
  ultimately show ?thesis
    using init_unknown_preset [of "page True []" "''bogus''" _ no_options] by blast
qed

text \<open>
  C8 as stated fails: the empty string is not a defined preset name, yet it is falsy, so
  \<^verbatim>\<open>init\<close> detects the preset from the path; on a path under \<^verbatim>\<open>/quantum\<close> the
  configuration is the \<^verbatim>\<open>quantum\<close> preset, which is not \<^verbatim>\<open>waves\<close>.
\<close>

theorem init_unknown_preset_counterexample:
  "map_of presets [] = None \<and>
   config (snd (init ((host False False)\<lparr>pathname := ''/quantum''\<rparr>)
                  (ArgObject (no_options\<lparr>preset := Text []\<rparr>))
                  (page True []))) = Some quantum \<and>
   quantum \<noteq> waves"
proof -
  have "resolve_config ''/quantum'' (no_options\<lparr>preset := Text []\<rparr>) = quantum"
    by (simp add: resolve_defs detect_quantum presets_def no_options_def)
  moreover have "\<not> initialized (page True [])"
    by (simp add: page_def)
  ultimately show ?thesis
    by (simp add: init_config quantum_neq_waves presets_def)
qed

text \<open>
  C10.  The colour override of \<^verbatim>\<open>init\<close> is applied exactly when \<^verbatim>\<open>options.color\<close> is
  truthy.  A falsy colour (0, undefined and NaN are falsy) is ignored: the configuration
  is the preset under the custom bundle, so its colour is the custom bundle's if it has
  one and the preset's otherwise.
\<close>

theorem init_color_override:
  assumes "\<not> initialized s"
    and "config (snd (init e (ArgObject opts) s)) = Some cfg"
    and "base = spread (chosen_preset (presetName_of (pathname e) opts))"
  shows "(if truthy (color opts)
          then cfg ''color'' = Some (color opts)
          else cfg = base ++ custom opts \<and>
               cfg ''color'' =
                 (case custom opts ''color'' of None \<Rightarrow> base ''color'' | Some v \<Rightarrow> Some v)) \<and>
         \<not> truthy (Num 0) \<and> \<not> truthy Undefined \<and> \<not> truthy NaN"
  using assms
  by (auto simp: init_config resolve_config_def Let_def map_add_def split: option.splits)

theorem init_color_override_witness:
  "config (snd (init (host False False)
                  (ArgObject (no_options\<lparr>preset := Text ''grid'', color := Num 0\<rparr>))
                  (page True []))) = Some grid \<and>
   grid ''color'' = Some (Num 0xd4a543)"
proof -
  let ?e = "host False False"
  let ?o = "no_options\<lparr>preset := Text ''grid'', color := Num 0\<rparr>"
  have a: "\<not> initialized (page True [])"
    by (simp add: page_def)
  have r: "resolve_config ''/'' ?o = grid"
    by (simp add: resolve_defs presets_def no_options_def)
  have b: "config (snd (init ?e (ArgObject ?o) (page True []))) = Some grid"
    using a r by (simp add: init_config host_def)
  have c: "grid = spread (chosen_preset (presetName_of (pathname ?e) ?o))"
    by (simp add: resolve_defs presets_def no_options_def)
  show ?thesis
    using init_color_override [OF a b c] b by (simp add: grid_def)
qed

end
